theory Spec2Isabelle
  imports Complex_Main "HOL-Library.Char_ord" "HOL-Library.List_Lexorder"
begin

section \<open>The remote-control session of \<open>vectorcloud/flask_app/routes.py\<close>\<close>

text \<open>
  The theory embeds the class \<open>RemoteControlVector\<close> and the helper \<open>remap_to_range\<close>.
  Python numbers are modelled by their values: the held-key fields and the modifier
  flags are integers (a Python \<open>bool\<close> counts as 0 or 1 in arithmetic and in
  comparisons); the mouse coordinates, the mouse direction and the velocities are
  floats with their infinities and NaN, computed without rounding. An exception is a
  value: an operation that can raise returns \<open>Inl (e, s)\<close>, the exception together
  with the session as the raise left it.
\<close>

subsection \<open>Python lists and strings\<close>

datatype py_error = IndexError | ZeroDivisionError

text \<open>Python list indexing: a negative index counts from the end, anything outside
  \<open>-len .. len - 1\<close> raises \<open>IndexError\<close>.\<close>

definition py_index :: "'a list \<Rightarrow> int \<Rightarrow> nat option" where
  "py_index xs i =
     (if 0 \<le> i \<and> i < int (length xs) then Some (nat i)
      else if i < 0 \<and> - int (length xs) \<le> i then Some (nat (int (length xs) + i))
      else None)"

definition py_get :: "'a list \<Rightarrow> int \<Rightarrow> py_error + 'a" where
  "py_get xs i = (case py_index xs i of None \<Rightarrow> Inl IndexError | Some k \<Rightarrow> Inr (xs ! k))"

definition py_set :: "'a list \<Rightarrow> int \<Rightarrow> 'a \<Rightarrow> py_error + 'a list" where
  "py_set xs i v = (case py_index xs i of None \<Rightarrow> Inl IndexError | Some k \<Rightarrow> Inr (xs[k := v]))"

text \<open>\<open>list.index(x)\<close>: the first position of \<open>x\<close>, \<open>None\<close> for \<open>ValueError\<close>.\<close>

fun index_of :: "'a list \<Rightarrow> 'a \<Rightarrow> nat option" where
  "index_of [] y = None"
| "index_of (x # xs) y = (if x = y then Some 0 else map_option Suc (index_of xs y))"

text \<open>\<open>ord(c)\<close> and \<open>str(i)\<close> for a natural number.\<close>

definition py_ord :: "char \<Rightarrow> int" where
  "py_ord c = of_char c"

definition digit_chr :: "nat \<Rightarrow> char" where
  "digit_chr d = ''0123456789'' ! d"

function str_nat :: "nat \<Rightarrow> string" where
  "str_nat n = (if n < 10 then [digit_chr n] else str_nat (n div 10) @ [digit_chr (n mod 10)])"
  by pat_completeness auto
termination
  by (relation "measure (\<lambda>n. n)") auto

declare str_nat.simps [simp del]

subsection \<open>Python numbers\<close>

text \<open>
  A Python number that may be a float: a finite value, an infinity or NaN (\<open>json.loads\<close>
  accepts \<open>Infinity\<close>, \<open>-Infinity\<close> and \<open>NaN\<close>); an \<open>int\<close> is the finite value it
  denotes. The operations are the ones of Python on finite values, without rounding;
  an infinity and NaN propagate as in IEEE 754, every comparison with NaN is false, and
  a division by zero raises \<open>ZeroDivisionError\<close>.
\<close>

datatype py_float = Fin real | PInf | NInf | NaN

instantiation py_float :: "{uminus, plus, minus, times, ord}"
begin

fun uminus_py_float :: "py_float \<Rightarrow> py_float" where
  "uminus_py_float (Fin a) = Fin (- a)"
| "uminus_py_float PInf = NInf"
| "uminus_py_float NInf = PInf"
| "uminus_py_float NaN = NaN"

fun plus_py_float :: "py_float \<Rightarrow> py_float \<Rightarrow> py_float" where
  "plus_py_float (Fin a) (Fin b) = Fin (a + b)"
| "plus_py_float NaN y = NaN"
| "plus_py_float x NaN = NaN"
| "plus_py_float PInf NInf = NaN"
| "plus_py_float NInf PInf = NaN"
| "plus_py_float PInf y = PInf"
| "plus_py_float x PInf = PInf"
| "plus_py_float NInf y = NInf"
| "plus_py_float x NInf = NInf"

definition minus_py_float :: "py_float \<Rightarrow> py_float \<Rightarrow> py_float" where
  "minus_py_float x y = x + (- y)"

fun times_py_float :: "py_float \<Rightarrow> py_float \<Rightarrow> py_float" where
  "times_py_float (Fin a) (Fin b) = Fin (a * b)"
| "times_py_float NaN y = NaN"
| "times_py_float x NaN = NaN"
| "times_py_float (Fin a) PInf = (if 0 < a then PInf else if a < 0 then NInf else NaN)"
| "times_py_float (Fin a) NInf = (if 0 < a then NInf else if a < 0 then PInf else NaN)"
| "times_py_float PInf (Fin b) = (if 0 < b then PInf else if b < 0 then NInf else NaN)"
| "times_py_float NInf (Fin b) = (if 0 < b then NInf else if b < 0 then PInf else NaN)"
| "times_py_float PInf PInf = PInf"
| "times_py_float PInf NInf = NInf"
| "times_py_float NInf PInf = NInf"
| "times_py_float NInf NInf = PInf"

fun less_py_float :: "py_float \<Rightarrow> py_float \<Rightarrow> bool" where
  "less_py_float (Fin a) (Fin b) = (a < b)"
| "less_py_float NaN y = False"
| "less_py_float x NaN = False"
| "less_py_float x NInf = False"
| "less_py_float PInf y = False"
| "less_py_float NInf y = True"
| "less_py_float x PInf = True"

fun less_eq_py_float :: "py_float \<Rightarrow> py_float \<Rightarrow> bool" where
  "less_eq_py_float (Fin a) (Fin b) = (a \<le> b)"
| "less_eq_py_float NaN y = False"
| "less_eq_py_float x NaN = False"
| "less_eq_py_float NInf y = True"
| "less_eq_py_float x PInf = True"
| "less_eq_py_float x NInf = False"
| "less_eq_py_float PInf y = False"

instance ..

end

text \<open>The division \<open>x / y\<close>.\<close>

fun py_truediv :: "py_float \<Rightarrow> py_float \<Rightarrow> py_error + py_float" where
  "py_truediv x (Fin b) =
     (if b = 0 then Inl ZeroDivisionError
      else Inr (case x of
                  Fin a \<Rightarrow> Fin (a / b)
                | PInf \<Rightarrow> (if 0 < b then PInf else NInf)
                | NInf \<Rightarrow> (if 0 < b then NInf else PInf)
                | NaN \<Rightarrow> NaN))"
| "py_truediv (Fin a) PInf = Inr (Fin 0)"
| "py_truediv (Fin a) NInf = Inr (Fin 0)"
| "py_truediv x y = Inr NaN"

subsection \<open>The actuator\<close>

text \<open>
  The two callables an action can hold, \<open>self.vector.say_text\<close> and
  \<open>self.vector.anim.play_animation\<close>; an action is the tuple \<open>(func, args)\<close>.
\<close>

datatype func = say_text | play_animation

type_synonym action = "func \<times> string"

text \<open>The calls the session makes on the robot.\<close>

datatype call =
    set_wheel_motors py_float py_float py_float py_float
  | set_lift_motor py_float
  | set_head_motor py_float
  | invoke func string

text \<open>
  The robot is opaque to the session. The model keeps what the session reads
  (\<open>anim.anim_list\<close>, \<open>head_angle_rad\<close>), the calls made so far in order, and the
  robot's answer to \<open>say_text\<close> and \<open>play_animation\<close> as a function of the calls it
  has received before and of the call itself.
\<close>

record robot =
  anim_list :: "string list"
  head_angle_rad :: py_float
  calls :: "call list"
  reply :: "call list \<Rightarrow> call \<Rightarrow> bool"

text \<open>A call on the robot is appended to its log; the call of an action's callable
  also returns the robot's answer.\<close>

definition issue :: "call \<Rightarrow> robot \<Rightarrow> robot" where
  "issue c r = r\<lparr>calls := calls r @ [c]\<rparr>"

definition dispatch :: "func \<Rightarrow> string \<Rightarrow> robot \<Rightarrow> bool \<times> robot" where
  "dispatch f a r = (reply r (calls r) (invoke f a), issue (invoke f a) r)"

text \<open>Modelled from the spec: \<open>util.radians(x).degrees\<close> of the \<open>anki_vector\<close>
  library, which is not part of the repository: the angle in degrees of an angle given
  in radians.\<close>

fun degrees :: "py_float \<Rightarrow> py_float" where
  "degrees (Fin rad) = Fin (rad / pi * 180)"
| "degrees PInf = PInf"
| "degrees NInf = NInf"
| "degrees NaN = NaN"

subsection \<open>\<open>remap_to_range\<close>\<close>

definition remap_to_range ::
  "py_float \<Rightarrow> py_float \<Rightarrow> py_float \<Rightarrow> py_float \<Rightarrow> py_float \<Rightarrow> py_error + py_float" where
  "remap_to_range x x_min x_max out_min out_max =
     (if x < x_min then Inr out_min
      else if x > x_max then Inr out_max
      else (case py_truediv (x - x_min) (x_max - x_min) of
              Inl e \<Rightarrow> Inl e
            | Inr ratio \<Rightarrow> Inr (out_min + ratio * (out_max - out_min))))"

subsection \<open>The session\<close>

record session =
  vector :: robot
  drive_forwards :: int
  drive_back :: int
  turn_left :: int
  turn_right :: int
  lift_up :: int
  lift_down :: int
  head_up :: int
  head_down :: int
  go_fast :: int
  go_slow :: int
  is_mouse_look_enabled :: bool
  mouse_dir :: py_float
  anim_names :: "string list"
  anim_index_for_key :: "int list"
  action_queue :: "action list"
  text_to_say :: string

type_synonym outcome = "(py_error \<times> session) + session"

definition is_mouse_look_enabled_by_default :: bool where
  "is_mouse_look_enabled_by_default = False"

definition bad_anim_names :: "string list" where
  "bad_anim_names = [''ANIMATION_TEST'', ''soundTestAnim'']"

definition default_anims_for_keys :: "string list" where
  "default_anims_for_keys =
     [''anim_turn_left_01'',
      ''anim_blackjack_victorwin_01'',
      ''anim_pounce_success_02'',
      ''anim_feedback_shutup_01'',
      ''anim_knowledgegraph_success_01'',
      ''anim_wakeword_groggyeyes_listenloop_01'',
      ''anim_fistbump_success_01'',
      ''anim_reacttoface_unidentified_01'',
      ''anim_rtpickup_loop_10'',
      ''anim_volume_stage_05'']"

text \<open>The loop of \<open>__init__\<close> over \<open>default_anims_for_keys\<close>, with its counter \<open>kI\<close>;
  the message printed for a missing default is not modelled.\<close>

fun bind_defaults :: "string list \<Rightarrow> string list \<Rightarrow> nat \<Rightarrow> int list \<Rightarrow> int list" where
  "bind_defaults names [] kI idx = idx"
| "bind_defaults names (default_key # rest) kI idx =
     (let anim_idx = (case index_of names default_key of
                        Some k \<Rightarrow> int k
                      | None \<Rightarrow> int kI)
      in bind_defaults names rest (kI + 1) (idx[kI := anim_idx]))"

text \<open>\<open>__init__\<close>. \<open>all_anim_names.sort()\<close> sorts the robot's own list in place.\<close>

definition init :: "robot \<Rightarrow> session" where
  "init rbt =
     (let all_anim_names = sort (anim_list rbt);
          names = filter (\<lambda>anim_name. anim_name \<notin> set bad_anim_names) all_anim_names
      in \<lparr> vector = rbt\<lparr>anim_list := all_anim_names\<rparr>,
           drive_forwards = 0, drive_back = 0, turn_left = 0, turn_right = 0,
           lift_up = 0, lift_down = 0, head_up = 0, head_down = 0,
           go_fast = 0, go_slow = 0,
           is_mouse_look_enabled = is_mouse_look_enabled_by_default,
           mouse_dir = Fin 0,
           anim_names = names,
           anim_index_for_key = bind_defaults names default_anims_for_keys 0 (replicate 10 0),
           action_queue = [],
           text_to_say = ''Hi I'm Vector'' \<rparr>)"

definition set_anim :: "session \<Rightarrow> int \<Rightarrow> int \<Rightarrow> outcome" where
  "set_anim s key_index anim_index =
     (case py_set (anim_index_for_key s) key_index anim_index of
        Inl e \<Rightarrow> Inl (e, s)
      | Inr idx \<Rightarrow> Inr (s\<lparr>anim_index_for_key := idx\<rparr>))"

text \<open>The truth value of a number in a condition.\<close>

definition truthy :: "int \<Rightarrow> bool" where
  "truthy n = (n \<noteq> 0)"

text \<open>\<open>pick_speed\<close>: when \<open>go_fast\<close> holds and \<open>go_slow\<close> holds too, the inner \<open>if\<close> returns
  nothing and control leaves the whole \<open>if/elif\<close> for the final \<open>return mid_speed\<close>.\<close>

definition pick_speed :: "session \<Rightarrow> 'a \<Rightarrow> 'a \<Rightarrow> 'a \<Rightarrow> 'a" where
  "pick_speed s fast_speed mid_speed slow_speed =
     (if truthy (go_fast s) then
        (if \<not> truthy (go_slow s) then fast_speed else mid_speed)
      else if truthy (go_slow s) then slow_speed
      else mid_speed)"

definition update_lift :: "session \<Rightarrow> session" where
  "update_lift s =
     (let lift_speed = pick_speed s 8 4 2;
          lift_vel = (lift_up s - lift_down s) * lift_speed
      in s\<lparr>vector := issue (set_lift_motor (Fin (real_of_int lift_vel))) (vector s)\<rparr>)"

definition update_head :: "session \<Rightarrow> session" where
  "update_head s =
     (if \<not> is_mouse_look_enabled s then
        (let head_speed = pick_speed s 2 1 (1 / 2);
             head_vel = real_of_int (head_up s - head_down s) * head_speed
         in s\<lparr>vector := issue (set_head_motor (Fin head_vel)) (vector s)\<rparr>)
      else s)"

definition update_mouse_driving :: "session \<Rightarrow> session" where
  "update_mouse_driving s =
     (let drive_dir = drive_forwards s - drive_back s;
          turn_dir = Fin (real_of_int (turn_right s - turn_left s)) + mouse_dir s;
          turn_dir = (if drive_dir < 0 then - turn_dir else turn_dir);
          forward_speed = pick_speed s 150 75 50;
          turn_speed = pick_speed s 100 50 30;
          l_wheel_speed = Fin (real_of_int (drive_dir * forward_speed))
                          + Fin (real_of_int turn_speed) * turn_dir;
          r_wheel_speed = Fin (real_of_int (drive_dir * forward_speed))
                          - Fin (real_of_int turn_speed) * turn_dir
      in s\<lparr>vector := issue (set_wheel_motors l_wheel_speed r_wheel_speed
                                (l_wheel_speed * Fin 4) (r_wheel_speed * Fin 4)) (vector s)\<rparr>)"

definition handle_mouse :: "session \<Rightarrow> py_float \<Rightarrow> py_float \<Rightarrow> outcome" where
  "handle_mouse s mouse_x mouse_y =
     (if is_mouse_look_enabled s then
        (let mouse_sensitivity = Fin (3 / 2) in
         case remap_to_range mouse_x (Fin 0) (Fin 1) (- mouse_sensitivity) mouse_sensitivity of
           Inl e \<Rightarrow> Inl (e, s)
         | Inr d \<Rightarrow>
             (let s1 = update_mouse_driving (s\<lparr>mouse_dir := d\<rparr>) in
              case remap_to_range mouse_y (Fin 0) (Fin 1) (Fin 45) (Fin (- 25)) of
                Inl e \<Rightarrow> Inl (e, s1)
              | Inr desired_head_angle \<Rightarrow>
                  (let head_angle_delta = desired_head_angle - degrees (head_angle_rad (vector s1));
                       head_vel = head_angle_delta * Fin (3 / 100)
                   in Inr (s1\<lparr>vector := issue (set_head_motor head_vel) (vector s1)\<rparr>))))
      else Inr s)"

definition set_mouse_look_enabled :: "session \<Rightarrow> bool \<Rightarrow> session" where
  "set_mouse_look_enabled s enabled =
     (let was_mouse_look_enabled = is_mouse_look_enabled s;
          s1 = s\<lparr>is_mouse_look_enabled := enabled\<rparr>
      in if \<not> enabled then
           (let s2 = s1\<lparr>mouse_dir := Fin 0\<rparr>
            in if was_mouse_look_enabled then update_head (update_mouse_driving s2) else s2)
         else s1)"

definition update_drive_state :: "session \<Rightarrow> int \<Rightarrow> bool \<Rightarrow> bool \<Rightarrow> bool \<times> session" where
  "update_drive_state s key_code is_key_down speed_changed =
     (if key_code = py_ord CHR ''W'' then (True, s\<lparr>drive_forwards := of_bool is_key_down\<rparr>)
      else if key_code = py_ord CHR ''S'' then (True, s\<lparr>drive_back := of_bool is_key_down\<rparr>)
      else if key_code = py_ord CHR ''A'' then (True, s\<lparr>turn_left := of_bool is_key_down\<rparr>)
      else if key_code = py_ord CHR ''D'' then (True, s\<lparr>turn_right := of_bool is_key_down\<rparr>)
      else if \<not> speed_changed then (False, s)
      else (True, s))"

definition update_lift_state :: "session \<Rightarrow> int \<Rightarrow> bool \<Rightarrow> bool \<Rightarrow> bool \<times> session" where
  "update_lift_state s key_code is_key_down speed_changed =
     (if key_code = py_ord CHR ''R'' then (True, s\<lparr>lift_up := of_bool is_key_down\<rparr>)
      else if key_code = py_ord CHR ''F'' then (True, s\<lparr>lift_down := of_bool is_key_down\<rparr>)
      else if \<not> speed_changed then (False, s)
      else (True, s))"

definition update_head_state :: "session \<Rightarrow> int \<Rightarrow> bool \<Rightarrow> bool \<Rightarrow> bool \<times> session" where
  "update_head_state s key_code is_key_down speed_changed =
     (if key_code = py_ord CHR ''T'' then (True, s\<lparr>head_up := of_bool is_key_down\<rparr>)
      else if key_code = py_ord CHR ''G'' then (True, s\<lparr>head_down := of_bool is_key_down\<rparr>)
      else if \<not> speed_changed then (False, s)
      else (True, s))"

definition key_code_to_anim_name :: "session \<Rightarrow> int \<Rightarrow> py_error + string" where
  "key_code_to_anim_name s key_code =
     (let key_num = key_code - py_ord CHR ''0'' in
      case py_get (anim_index_for_key s) key_num of
        Inl e \<Rightarrow> Inl e
      | Inr anim_num \<Rightarrow> py_get (anim_names s) anim_num)"

definition queue_action :: "session \<Rightarrow> action \<Rightarrow> session" where
  "queue_action s new_action =
     (let s1 = (if length (action_queue s) > 10
                then s\<lparr>action_queue := tl (action_queue s)\<rparr> else s)
      in s1\<lparr>action_queue := action_queue s1 @ [new_action]\<rparr>)"

definition handle_key :: "session \<Rightarrow> int \<Rightarrow> int \<Rightarrow> int \<Rightarrow> bool \<Rightarrow> outcome" where
  "handle_key s key_code is_shift_down is_alt_down is_key_down =
     (let was_go_fast = go_fast s;
          was_go_slow = go_slow s;
          s1 = s\<lparr>go_fast := is_shift_down, go_slow := is_alt_down\<rparr>;
          speed_changed = (was_go_fast \<noteq> go_fast s1 \<or> was_go_slow \<noteq> go_slow s1);
          (do_driving, s2) = update_drive_state s1 key_code is_key_down speed_changed;
          (do_lift, s3) = update_lift_state s2 key_code is_key_down speed_changed;
          (do_head, s4) = update_head_state s3 key_code is_key_down speed_changed;
          s5 = (if do_driving then update_mouse_driving s4 else s4);
          s6 = (if do_head then update_head s5 else s5);
          s7 = (if do_lift then update_lift s6 else s6)
      in if \<not> is_key_down then
           (if py_ord CHR ''9'' \<ge> key_code \<and> key_code \<ge> py_ord CHR ''0'' then
              (case key_code_to_anim_name s7 key_code of
                 Inl e \<Rightarrow> Inl (e, s7)
               | Inr anim_name \<Rightarrow> Inr (queue_action s7 (play_animation, anim_name)))
            else if key_code = py_ord CHR '' '' then
              Inr (queue_action s7 (say_text, text_to_say s7))
            else Inr s7)
         else Inr s7)"

definition func_to_name :: "session \<Rightarrow> func \<Rightarrow> string" where
  "func_to_name s f =
     (if f = say_text then ''say_text''
      else if f = play_animation then ''play_anim''
      else ''UNKNOWN'')"

definition action_to_text :: "session \<Rightarrow> action \<Rightarrow> string" where
  "action_to_text s a = (case a of (f, args) \<Rightarrow> func_to_name s f @ ''( '' @ args @ '' )'')"

text \<open>The loop of \<open>action_queue_to_text\<close>, with its accumulator \<open>out_text\<close> and its
  counter \<open>i\<close>; the session is threaded through, as the method receives \<open>self\<close>.\<close>

fun queue_text_loop :: "session \<Rightarrow> action list \<Rightarrow> string \<Rightarrow> nat \<Rightarrow> string \<times> session" where
  "queue_text_loop s [] out_text i = (out_text, s)"
| "queue_text_loop s (a # rest) out_text i =
     queue_text_loop s rest (out_text @ ''['' @ str_nat i @ ''] '' @ action_to_text s a) (i + 1)"

definition action_queue_to_text :: "session \<Rightarrow> action list \<Rightarrow> string \<times> session" where
  "action_queue_to_text s q = queue_text_loop s q '''' 0"

definition update :: "session \<Rightarrow> session" where
  "update s =
     (case action_queue s of
        [] \<Rightarrow> s
      | (queued_action, action_args) # _ \<Rightarrow>
          (case dispatch queued_action action_args (vector s) of
             (done, rbt) \<Rightarrow>
               (let s1 = s\<lparr>vector := rbt\<rparr>
                in if done then s1\<lparr>action_queue := tl (action_queue s1)\<rparr> else s1)))"

text \<open>\<open>handle_sayText\<close> assigns the field directly.\<close>

definition set_text_to_say :: "session \<Rightarrow> string \<Rightarrow> session" where
  "set_text_to_say s t = s\<lparr>text_to_say := t\<rparr>"

subsection \<open>Sequences of operations\<close>

text \<open>
  The calls the request handlers make on the session, and \<open>queue_action\<close> itself. A
  handler whose call raises answers with an error and the session object lives on, in
  the state the raise left it: \<open>state_after\<close>; \<open>raised\<close> is the exception, if any.
\<close>

datatype operation =
    HandleKey int int int bool
  | HandleMouse py_float py_float
  | SetMouseLookEnabled bool
  | SetAnim int int
  | SetTextToSay string
  | QueueAction action
  | Update

fun apply_op :: "session \<Rightarrow> operation \<Rightarrow> outcome" where
  "apply_op s (HandleKey k sh al dn) = handle_key s k sh al dn"
| "apply_op s (HandleMouse x y) = handle_mouse s x y"
| "apply_op s (SetMouseLookEnabled b) = Inr (set_mouse_look_enabled s b)"
| "apply_op s (SetAnim k j) = set_anim s k j"
| "apply_op s (SetTextToSay t) = Inr (set_text_to_say s t)"
| "apply_op s (QueueAction a) = Inr (queue_action s a)"
| "apply_op s Update = Inr (update s)"

definition state_after :: "outcome \<Rightarrow> session" where
  "state_after r = (case r of Inl (e, s) \<Rightarrow> s | Inr s \<Rightarrow> s)"

definition raised :: "outcome \<Rightarrow> py_error option" where
  "raised r = (case r of Inl (e, s) \<Rightarrow> Some e | Inr s \<Rightarrow> None)"

fun run :: "session \<Rightarrow> operation list \<Rightarrow> session" where
  "run s [] = s"
| "run s (c # cs) = run (state_after (apply_op s c)) cs"

subsection \<open>The queue listing of \<open>handle_updateVector\<close>\<close>

text \<open>The request handler of \<open>/updateVector\<close>, for an existing session: it calls
  \<open>update\<close> and then lists the queue, counting from 1. The loop has the accumulator
  \<open>action_queue_text\<close> and the counter \<open>i\<close>.\<close>

fun update_text_loop :: "session \<Rightarrow> action list \<Rightarrow> string \<Rightarrow> nat \<Rightarrow> string" where
  "update_text_loop s [] action_queue_text i = action_queue_text"
| "update_text_loop s (a # rest) action_queue_text i =
     update_text_loop s rest
       (action_queue_text @ str_nat i @ '': '' @ action_to_text s a @ ''<br>'') (i + 1)"

definition handle_updateVector :: "session \<Rightarrow> string \<times> session" where
  "handle_updateVector s =
     (let s1 = update s;
          action_queue_text = update_text_loop s1 (action_queue s1) [] 1
      in (''Action Queue:<br>'' @ action_queue_text @ [CHR 0x0A], s1))"

subsection \<open>Predicates used in the statements\<close>

text \<open>The fields that neither a key state update nor a motor update touches.\<close>

definition same_bindings :: "session \<Rightarrow> session \<Rightarrow> bool" where
  "same_bindings s s' \<longleftrightarrow>
     mouse_dir s' = mouse_dir s \<and> is_mouse_look_enabled s' = is_mouse_look_enabled s \<and>
     anim_names s' = anim_names s \<and> anim_index_for_key s' = anim_index_for_key s \<and>
     action_queue s' = action_queue s \<and> text_to_say s' = text_to_say s"

text \<open>An index into the catalog, counted from 0; and a session whose ten key bindings
  are all such indices.\<close>

definition valid_anim_index :: "string list \<Rightarrow> int \<Rightarrow> bool" where
  "valid_anim_index names j \<longleftrightarrow> 0 \<le> j \<and> j < int (length names)"

definition bindings_valid :: "session \<Rightarrow> bool" where
  "bindings_valid s \<longleftrightarrow>
     length (anim_index_for_key s) = 10 \<and>
     list_all (valid_anim_index (anim_names s)) (anim_index_for_key s)"

text \<open>A catalog in which the default of every digit key is present, or else the key's
  own number is an index into the catalog.\<close>

definition default_resolvable :: "string list \<Rightarrow> nat \<times> string \<Rightarrow> bool" where
  "default_resolvable names = (\<lambda>(kI, default_key). default_key \<in> set names \<or> kI < length names)"

definition defaults_resolvable :: "string list \<Rightarrow> bool" where
  "defaults_resolvable names =
     list_all (default_resolvable names) (enumerate 0 default_anims_for_keys)"

text \<open>An operation that, when it is a \<open>set_anim\<close> call, passes an index into a catalog of
  \<open>n\<close> entries.\<close>

fun anim_arg_ok :: "nat \<Rightarrow> operation \<Rightarrow> bool" where
  "anim_arg_ok n (SetAnim k j) = (0 \<le> j \<and> j < int n)"
| "anim_arg_ok n (HandleKey k sh al dn) = True"
| "anim_arg_ok n (HandleMouse x y) = True"
| "anim_arg_ok n (SetMouseLookEnabled b) = True"
| "anim_arg_ok n (SetTextToSay t) = True"
| "anim_arg_ok n (QueueAction a) = True"
| "anim_arg_ok n Update = True"

text \<open>An operation that, when it is a \<open>handle_mouse\<close> call, does not pass NaN as the
  x coordinate; and a mouse direction within -1.5 .. 1.5.\<close>

fun mouse_x_ok :: "operation \<Rightarrow> bool" where
  "mouse_x_ok (HandleMouse x y) = (x \<noteq> NaN)"
| "mouse_x_ok (HandleKey k sh al dn) = True"
| "mouse_x_ok (SetMouseLookEnabled b) = True"
| "mouse_x_ok (SetAnim k j) = True"
| "mouse_x_ok (SetTextToSay t) = True"
| "mouse_x_ok (QueueAction a) = True"
| "mouse_x_ok Update = True"

definition mouse_dir_in_range :: "session \<Rightarrow> bool" where
  "mouse_dir_in_range s \<longleftrightarrow> Fin (- (3 / 2)) \<le> mouse_dir s \<and> mouse_dir s \<le> Fin (3 / 2)"

subsection \<open>A concrete robot and session\<close>

text \<open>A robot with four animations that never reports an action as complete, and a
  session on it with digit key 5 bound to catalog entry 3; used to run the definitions.\<close>

definition example_robot :: robot where
  "example_robot =
     \<lparr> anim_list = [''anim_a'', ''anim_b'', ''anim_c'', ''anim_x''],
       head_angle_rad = Fin 0,
       calls = [],
       reply = (\<lambda>h c. False) \<rparr>"

definition example_session :: session where
  "example_session =
     \<lparr> vector = example_robot,
       drive_forwards = 0, drive_back = 0, turn_left = 0, turn_right = 0,
       lift_up = 0, lift_down = 0, head_up = 0, head_down = 0,
       go_fast = 0, go_slow = 0,
       is_mouse_look_enabled = False,
       mouse_dir = Fin 0,
       anim_names = [''anim_a'', ''anim_b'', ''anim_c'', ''anim_x''],
       anim_index_for_key = [0, 1, 2, 3, 0, 3, 1, 2, 3, 0],
       action_queue = [],
       text_to_say = ''hello'' \<rparr>"

section \<open>Speed selection\<close>

text \<open>
  Claim C1, as amended. \<open>pick_speed\<close> returns the fast speed when \<open>go_fast\<close> is set and
  \<open>go_slow\<close> is not, the slow speed when \<open>go_slow\<close> is set and \<open>go_fast\<close> is not, and
  the mid speed in the two remaining cases: when neither modifier is set, and when both
  are set (the two modifiers cancel).
\<close>

theorem pick_speed_tiers:
  "(truthy (go_fast s) \<and> \<not> truthy (go_slow s) \<longrightarrow> pick_speed s fast mid slow = fast) \<and>
   (\<not> truthy (go_fast s) \<and> truthy (go_slow s) \<longrightarrow> pick_speed s fast mid slow = slow) \<and>
   (truthy (go_fast s) \<and> truthy (go_slow s) \<longrightarrow> pick_speed s fast mid slow = mid) \<and>
   (\<not> truthy (go_fast s) \<and> \<not> truthy (go_slow s) \<longrightarrow> pick_speed s fast mid slow = mid)"
  by (simp add: pick_speed_def)

text \<open>The four modifier combinations on the drive speeds 150, 75, 50.\<close>

theorem pick_speed_tiers_witness:
  "pick_speed (example_session\<lparr>go_fast := 1, go_slow := 0\<rparr>) (150::int) 75 50 = 150 \<and>
   pick_speed (example_session\<lparr>go_fast := 0, go_slow := 1\<rparr>) (150::int) 75 50 = 50 \<and>
   pick_speed (example_session\<lparr>go_fast := 1, go_slow := 1\<rparr>) (150::int) 75 50 = 75 \<and>
   pick_speed (example_session\<lparr>go_fast := 0, go_slow := 0\<rparr>) (150::int) 75 50 = 75"
  using pick_speed_tiers [of "example_session\<lparr>go_fast := 1, go_slow := 0\<rparr>" 150 75 50]
        pick_speed_tiers [of "example_session\<lparr>go_fast := 0, go_slow := 1\<rparr>" 150 75 50]
        pick_speed_tiers [of "example_session\<lparr>go_fast := 1, go_slow := 1\<rparr>" 150 75 50]
        pick_speed_tiers [of "example_session\<lparr>go_fast := 0, go_slow := 0\<rparr>" 150 75 50]
  by (simp add: truthy_def)

text \<open>Claim C1 as stated fails: with both modifiers set the result is the mid speed 75,
  not the slow speed 50.\<close>

theorem pick_speed_both_counterexample:
  "pick_speed (example_session\<lparr>go_fast := 1, go_slow := 1\<rparr>) (150::int) 75 50 = 75 \<and>
   pick_speed (example_session\<lparr>go_fast := 1, go_slow := 1\<rparr>) (150::int) 75 50 \<noteq> 50"
  by (simp add: pick_speed_def truthy_def)

section \<open>The action queue\<close>

lemma queue_action_queue:
  "action_queue (queue_action s a) =
     (if length (action_queue s) > 10 then tl (action_queue s) else action_queue s) @ [a]"
  by (simp add: queue_action_def)

text \<open>Enqueuing a sequence keeps the last eleven of everything that was queued.\<close>

lemma enqueue_all_gen:
  "length (action_queue s) \<le> 11 \<Longrightarrow>
   action_queue (foldl queue_action s as) =
     drop (length (action_queue s @ as) - 11) (action_queue s @ as)"
proof (induction as arbitrary: s)
  case Nil
  then show ?case by simp
next
  case (Cons a as)
  let ?q = "action_queue s"
  let ?q' = "action_queue (queue_action s a)"
  have len': "length ?q' \<le> 11"
    using Cons.prems by (auto simp: queue_action_queue)
  have ih: "action_queue (foldl queue_action (queue_action s a) as) =
            drop (length (?q' @ as) - 11) (?q' @ as)"
    by (rule Cons.IH [OF len'])
  show ?case
  proof (cases "length ?q > 10")
    case False
    then have "?q' @ as = ?q @ a # as" by (simp add: queue_action_queue)
    with ih show ?thesis by simp
  next
    case True
    then have eq: "?q' @ as = drop 1 (?q @ a # as)"
      by (cases ?q) (simp_all add: queue_action_queue drop_Suc)
    have arith: "length (drop 1 (?q @ a # as)) - 11 + 1 = length (?q @ a # as) - 11"
      using True by simp
    have "drop (length (?q' @ as) - 11) (?q' @ as) =
          drop (length (?q @ a # as) - 11) (?q @ a # as)"
      unfolding eq drop_drop arith ..
    with ih show ?thesis by simp
  qed
qed

section \<open>Draining the queue\<close>

lemma update_empty: "action_queue s = [] \<Longrightarrow> update s = s"
  by (simp add: update_def)

lemma update_cons:
  "action_queue s = (f, a) # rest \<Longrightarrow>
   update s =
     (if reply (vector s) (calls (vector s)) (invoke f a)
      then s\<lparr>vector := issue (invoke f a) (vector s), action_queue := rest\<rparr>
      else s\<lparr>vector := issue (invoke f a) (vector s)\<rparr>)"
  by (simp add: update_def dispatch_def Let_def)

lemma update_stalled:
  "action_queue s = (f, a) # rest \<Longrightarrow> \<not> reply (vector s) (calls (vector s)) (invoke f a) \<Longrightarrow>
   update s = s\<lparr>vector := issue (invoke f a) (vector s)\<rparr>"
  by (simp add: update_cons)

lemma update_completed:
  "action_queue s = (f, a) # rest \<Longrightarrow> reply (vector s) (calls (vector s)) (invoke f a) \<Longrightarrow>
   update s = s\<lparr>vector := issue (invoke f a) (vector s), action_queue := rest\<rparr>"
  by (simp add: update_cons)

text \<open>
  Claim C3. \<open>update\<close> on an empty queue changes nothing. On a non-empty queue it calls
  the head action on the robot once and removes the head exactly when the call
  returns a true value; otherwise the whole queue stays as it was. So for one queued
  action whose call answers false three times and then true, the queue has length 1
  after each of the first three \<open>update\<close> calls and length 0 after the fourth.
\<close>

theorem update_pops_on_completion:
  "(action_queue s = [] \<longrightarrow> update s = s) \<and>
   (action_queue s = (f, a) # rest \<longrightarrow>
      update s = s\<lparr>vector := issue (invoke f a) (vector s),
                   action_queue := (if reply (vector s) (calls (vector s)) (invoke f a)
                                    then rest else (f, a) # rest)\<rparr> \<and>
      calls (vector (update s)) = calls (vector s) @ [invoke f a]) \<and>
   (action_queue s = [(f, a)] \<and>
    \<not> reply (vector s) (calls (vector s)) (invoke f a) \<and>
    \<not> reply (vector s) (calls (vector s) @ [invoke f a]) (invoke f a) \<and>
    \<not> reply (vector s) (calls (vector s) @ [invoke f a, invoke f a]) (invoke f a) \<and>
    reply (vector s) (calls (vector s) @ [invoke f a, invoke f a, invoke f a]) (invoke f a) \<longrightarrow>
      length (action_queue (update s)) = 1 \<and>
      length (action_queue (update (update s))) = 1 \<and>
      length (action_queue (update (update (update s)))) = 1 \<and>
      length (action_queue (update (update (update (update s))))) = 0)"
proof (intro conjI impI)
  assume "action_queue s = []"
  then show "update s = s" by (rule update_empty)
next
  assume q: "action_queue s = (f, a) # rest"
  show "update s = s\<lparr>vector := issue (invoke f a) (vector s),
                   action_queue := (if reply (vector s) (calls (vector s)) (invoke f a)
                                    then rest else (f, a) # rest)\<rparr>"
    using q by (simp add: update_cons)
  show "calls (vector (update s)) = calls (vector s) @ [invoke f a]"
    using q by (simp add: update_cons issue_def)
next
  assume h: "action_queue s = [(f, a)] \<and>
    \<not> reply (vector s) (calls (vector s)) (invoke f a) \<and>
    \<not> reply (vector s) (calls (vector s) @ [invoke f a]) (invoke f a) \<and>
    \<not> reply (vector s) (calls (vector s) @ [invoke f a, invoke f a]) (invoke f a) \<and>
    reply (vector s) (calls (vector s) @ [invoke f a, invoke f a, invoke f a]) (invoke f a)"
  let ?c = "invoke f a"
  let ?v = "vector s"
  have u1: "update s = s\<lparr>vector := issue ?c ?v\<rparr>"
    using h by (simp add: update_stalled)
  have u2: "update (update s) = s\<lparr>vector := issue ?c (issue ?c ?v)\<rparr>"
    unfolding u1 using h by (subst update_stalled [where f = f and a = a and rest = "[]"]) (simp_all add: issue_def)
  have u3: "update (update (update s)) = s\<lparr>vector := issue ?c (issue ?c (issue ?c ?v))\<rparr>"
    unfolding u2 using h by (subst update_stalled [where f = f and a = a and rest = "[]"]) (simp_all add: issue_def)
  have u4: "update (update (update (update s))) =
            s\<lparr>vector := issue ?c (issue ?c (issue ?c (issue ?c ?v))), action_queue := []\<rparr>"
    unfolding u3 using h by (subst update_completed [where f = f and a = a and rest = "[]"]) (simp_all add: issue_def)
  show "length (action_queue (update s)) = 1" using h by (simp add: u1)
  show "length (action_queue (update (update s))) = 1" using h by (simp add: u2)
  show "length (action_queue (update (update (update s)))) = 1" using h by (simp add: u3)
  show "length (action_queue (update (update (update (update s))))) = 0" by (simp add: u4)
qed

text \<open>The example session with an empty queue, and with one action on a robot that
  reports completion from its fourth call on.\<close>

theorem update_pops_on_completion_witness:
  "update example_session = example_session \<and>
   calls (vector (update (example_session
      \<lparr>vector := example_robot\<lparr>reply := (\<lambda>h c. 3 \<le> length h)\<rparr>,
       action_queue := [(say_text, ''hello'')]\<rparr>))) = [invoke say_text ''hello''] \<and>
   length (action_queue (update (example_session
      \<lparr>vector := example_robot\<lparr>reply := (\<lambda>h c. 3 \<le> length h)\<rparr>,
       action_queue := [(say_text, ''hello'')]\<rparr>))) = 1 \<and>
   length (action_queue (update (update (update (update (example_session
      \<lparr>vector := example_robot\<lparr>reply := (\<lambda>h c. 3 \<le> length h)\<rparr>,
       action_queue := [(say_text, ''hello'')]\<rparr>)))))) = 0"
proof -
  let ?s = "example_session\<lparr>vector := example_robot\<lparr>reply := (\<lambda>h c. 3 \<le> length h)\<rparr>,
                            action_queue := [(say_text, ''hello'')]\<rparr>"
  let ?c = "invoke say_text ''hello''"
  have e: "action_queue example_session = []"
    by (simp add: example_session_def)
  have q: "action_queue ?s = (say_text, ''hello'') # []"
    by simp
  have h: "action_queue ?s = [(say_text, ''hello'')] \<and>
    \<not> reply (vector ?s) (calls (vector ?s)) ?c \<and>
    \<not> reply (vector ?s) (calls (vector ?s) @ [?c]) ?c \<and>
    \<not> reply (vector ?s) (calls (vector ?s) @ [?c, ?c]) ?c \<and>
    reply (vector ?s) (calls (vector ?s) @ [?c, ?c, ?c]) ?c"
    by (simp add: example_robot_def)
  note first = update_pops_on_completion [of example_session say_text "''hello''" "[]",
      THEN conjunct1, THEN mp, OF e]
  note head = update_pops_on_completion [of ?s say_text "''hello''" "[]",
      THEN conjunct2, THEN conjunct1, THEN mp, OF q, THEN conjunct2]
  note fourth = update_pops_on_completion [of ?s say_text "''hello''" "[]",
      THEN conjunct2, THEN conjunct2, THEN mp, OF h]
  have c: "calls (vector (update ?s)) = [?c]"
    using head by (simp add: example_robot_def)
  from first c fourth show ?thesis by blast
qed

section \<open>Drive and turn\<close>

text \<open>
  Claim C5. \<open>update_mouse_driving\<close> issues exactly one wheel-motor call and changes
  nothing else: with \<open>drive_dir = drive_forwards - drive_back\<close>, the turn direction
  \<open>(turn_right - turn_left) + mouse_dir\<close> negated when \<open>drive_dir < 0\<close>, the forward
  speed picked from (150, 75, 50) and the turn speed from (100, 50, 30), the left wheel
  speed is \<open>drive_dir * forward_speed + turn_speed * turn_dir\<close>, the right one
  \<open>drive_dir * forward_speed - turn_speed * turn_dir\<close>, and the two acceleration
  arguments are four times the wheel speeds. The first part states it in the arithmetic
  of Python numbers, for every mouse direction; the second in real arithmetic, for every
  finite mouse direction.
\<close>

theorem update_mouse_driving_command:
  "(let drive_dir = Fin (real_of_int (drive_forwards s - drive_back s));
        turn = Fin (real_of_int (turn_right s - turn_left s)) + mouse_dir s;
        turn_dir = (if drive_dir < Fin 0 then - turn else turn);
        forward_speed = Fin (pick_speed s 150 75 50);
        turn_speed = Fin (pick_speed s 100 50 30);
        left = drive_dir * forward_speed + turn_speed * turn_dir;
        right = drive_dir * forward_speed - turn_speed * turn_dir
    in update_mouse_driving s =
         s\<lparr>vector := (vector s)\<lparr>calls := calls (vector s) @
                        [set_wheel_motors left right (left * Fin 4) (right * Fin 4)]\<rparr>\<rparr>) \<and>
   (mouse_dir s = Fin m \<longrightarrow>
     (let drive_dir = real_of_int (drive_forwards s - drive_back s);
          turn = real_of_int (turn_right s - turn_left s) + m;
          turn_dir = (if drive_dir < 0 then - turn else turn);
          forward_speed = pick_speed s 150 75 50;
          turn_speed = pick_speed s 100 50 30;
          left = drive_dir * forward_speed + turn_speed * turn_dir;
          right = drive_dir * forward_speed - turn_speed * turn_dir
      in update_mouse_driving s =
           s\<lparr>vector := (vector s)\<lparr>calls := calls (vector s) @
                          [set_wheel_motors (Fin left) (Fin right)
                             (Fin (4 * left)) (Fin (4 * right))]\<rparr>\<rparr>))"
proof (intro conjI impI)
  show "(let drive_dir = Fin (real_of_int (drive_forwards s - drive_back s));
        turn = Fin (real_of_int (turn_right s - turn_left s)) + mouse_dir s;
        turn_dir = (if drive_dir < Fin 0 then - turn else turn);
        forward_speed = Fin (pick_speed s 150 75 50);
        turn_speed = Fin (pick_speed s 100 50 30);
        left = drive_dir * forward_speed + turn_speed * turn_dir;
        right = drive_dir * forward_speed - turn_speed * turn_dir
    in update_mouse_driving s =
         s\<lparr>vector := (vector s)\<lparr>calls := calls (vector s) @
                        [set_wheel_motors left right (left * Fin 4) (right * Fin 4)]\<rparr>\<rparr>)"
    by (simp add: update_mouse_driving_def issue_def Let_def pick_speed_def)
next
  assume "mouse_dir s = Fin m"
  then show "(let drive_dir = real_of_int (drive_forwards s - drive_back s);
          turn = real_of_int (turn_right s - turn_left s) + m;
          turn_dir = (if drive_dir < 0 then - turn else turn);
          forward_speed = pick_speed s 150 75 50;
          turn_speed = pick_speed s 100 50 30;
          left = drive_dir * forward_speed + turn_speed * turn_dir;
          right = drive_dir * forward_speed - turn_speed * turn_dir
      in update_mouse_driving s =
           s\<lparr>vector := (vector s)\<lparr>calls := calls (vector s) @
                          [set_wheel_motors (Fin left) (Fin right)
                             (Fin (4 * left)) (Fin (4 * right))]\<rparr>\<rparr>)"
    by (simp add: update_mouse_driving_def issue_def Let_def pick_speed_def minus_py_float_def
        mult.commute)
qed

text \<open>Reversing while the left key is held, at mid speed; and the same with NaN as the
  mouse direction.\<close>

theorem update_mouse_driving_command_witness:
  "mouse_dir (example_session\<lparr>drive_back := 1, turn_left := 1\<rparr>) = Fin 0 \<and>
   calls (vector (update_mouse_driving (example_session\<lparr>drive_back := 1, turn_left := 1\<rparr>))) =
     [set_wheel_motors (Fin (- 25)) (Fin (- 125)) (Fin (- 100)) (Fin (- 500))] \<and>
   calls (vector (update_mouse_driving
     (example_session\<lparr>drive_back := 1, turn_left := 1, mouse_dir := NaN\<rparr>))) =
     [set_wheel_motors NaN NaN NaN NaN]"
proof -
  let ?s = "example_session\<lparr>drive_back := 1, turn_left := 1\<rparr>"
  let ?n = "example_session\<lparr>drive_back := 1, turn_left := 1, mouse_dir := NaN\<rparr>"
  have m: "mouse_dir ?s = Fin 0"
    by (simp add: example_session_def)
  note fin = update_mouse_driving_command [of ?s 0, THEN conjunct2, THEN mp, OF m]
  note any = update_mouse_driving_command [of ?n, THEN conjunct1]
  have a: "calls (vector (update_mouse_driving ?s)) =
     [set_wheel_motors (Fin (- 25)) (Fin (- 125)) (Fin (- 100)) (Fin (- 500))]"
    using fin by (simp add: Let_def pick_speed_def truthy_def example_session_def example_robot_def)
  have b: "calls (vector (update_mouse_driving ?n)) = [set_wheel_motors NaN NaN NaN NaN]"
    using any
    by (simp add: Let_def pick_speed_def truthy_def minus_py_float_def example_session_def
        example_robot_def)
  from m a b show ?thesis by blast
qed

section \<open>Mouse look\<close>

lemma mouse_look_update_mouse_driving [simp]:
  "is_mouse_look_enabled (update_mouse_driving s) = is_mouse_look_enabled s"
  by (simp add: update_mouse_driving_def Let_def)

lemma set_mouse_look_disable_from_enabled:
  "is_mouse_look_enabled s \<Longrightarrow>
   set_mouse_look_enabled s False =
     update_head (update_mouse_driving (s\<lparr>is_mouse_look_enabled := False, mouse_dir := Fin 0\<rparr>))"
  by (simp add: set_mouse_look_enabled_def Let_def)

lemma set_mouse_look_disable_commands:
  "is_mouse_look_enabled s \<Longrightarrow>
   (let drive_dir = real_of_int (drive_forwards s - drive_back s);
        turn = real_of_int (turn_right s - turn_left s);
        turn_dir = (if drive_dir < 0 then - turn else turn);
        forward_speed = pick_speed s 150 75 50;
        turn_speed = pick_speed s 100 50 30;
        left = drive_dir * forward_speed + turn_speed * turn_dir;
        right = drive_dir * forward_speed - turn_speed * turn_dir;
        head_vel = real_of_int (head_up s - head_down s) * pick_speed s 2 1 (1 / 2)
    in set_mouse_look_enabled s False =
         s\<lparr>is_mouse_look_enabled := False, mouse_dir := Fin 0,
            vector := (vector s)\<lparr>calls := calls (vector s) @
              [set_wheel_motors (Fin left) (Fin right) (Fin (4 * left)) (Fin (4 * right)),
               set_head_motor (Fin head_vel)]\<rparr>\<rparr>)"
  by (simp add: set_mouse_look_enabled_def update_head_def update_mouse_driving_def issue_def
      Let_def pick_speed_def minus_py_float_def mult.commute)

text \<open>
  Claim C6. Disabling mouse look on a session that had it enabled sets \<open>mouse_dir\<close> to 0
  and recomputes drive/turn and head once each: it issues one wheel-motor call, computed
  from the held keys with a mouse direction of 0, followed by one head-motor call with
  the velocity \<open>(head_up - head_down) * pick_speed(2, 1, 0.5)\<close>, and changes nothing
  else. When the new value is enabled, or equal to the previous value, the robot is not
  called. Disabling twice leaves the session as disabling once does.
\<close>

theorem set_mouse_look_enabled_recompute:
  "(is_mouse_look_enabled s \<longrightarrow>
      (let drive_dir = real_of_int (drive_forwards s - drive_back s);
           turn = real_of_int (turn_right s - turn_left s);
           turn_dir = (if drive_dir < 0 then - turn else turn);
           forward_speed = pick_speed s 150 75 50;
           turn_speed = pick_speed s 100 50 30;
           left = drive_dir * forward_speed + turn_speed * turn_dir;
           right = drive_dir * forward_speed - turn_speed * turn_dir;
           head_vel = real_of_int (head_up s - head_down s) * pick_speed s 2 1 (1 / 2)
       in set_mouse_look_enabled s False =
            s\<lparr>is_mouse_look_enabled := False, mouse_dir := Fin 0,
               vector := (vector s)\<lparr>calls := calls (vector s) @
                 [set_wheel_motors (Fin left) (Fin right) (Fin (4 * left)) (Fin (4 * right)),
                  set_head_motor (Fin head_vel)]\<rparr>\<rparr>)) \<and>
   (is_mouse_look_enabled s \<longrightarrow>
      mouse_dir (set_mouse_look_enabled s False) = Fin 0 \<and>
      \<not> is_mouse_look_enabled (set_mouse_look_enabled s False) \<and>
      set_mouse_look_enabled s False =
        update_head (update_mouse_driving (s\<lparr>is_mouse_look_enabled := False, mouse_dir := Fin 0\<rparr>)) \<and>
      (\<exists>l r la ra h. calls (vector (set_mouse_look_enabled s False)) =
         calls (vector s) @ [set_wheel_motors l r la ra, set_head_motor h])) \<and>
   (enabled \<or> enabled = is_mouse_look_enabled s \<longrightarrow>
      vector (set_mouse_look_enabled s enabled) = vector s \<and>
      set_mouse_look_enabled s enabled =
        s\<lparr>is_mouse_look_enabled := enabled,
           mouse_dir := (if enabled then mouse_dir s else Fin 0)\<rparr>) \<and>
   set_mouse_look_enabled (set_mouse_look_enabled s False) False = set_mouse_look_enabled s False"
proof (intro conjI impI)
  assume en: "is_mouse_look_enabled s"
  then show "(let drive_dir = real_of_int (drive_forwards s - drive_back s);
           turn = real_of_int (turn_right s - turn_left s);
           turn_dir = (if drive_dir < 0 then - turn else turn);
           forward_speed = pick_speed s 150 75 50;
           turn_speed = pick_speed s 100 50 30;
           left = drive_dir * forward_speed + turn_speed * turn_dir;
           right = drive_dir * forward_speed - turn_speed * turn_dir;
           head_vel = real_of_int (head_up s - head_down s) * pick_speed s 2 1 (1 / 2)
       in set_mouse_look_enabled s False =
            s\<lparr>is_mouse_look_enabled := False, mouse_dir := Fin 0,
               vector := (vector s)\<lparr>calls := calls (vector s) @
                 [set_wheel_motors (Fin left) (Fin right) (Fin (4 * left)) (Fin (4 * right)),
                  set_head_motor (Fin head_vel)]\<rparr>\<rparr>)"
    by (rule set_mouse_look_disable_commands)
next
  assume en: "is_mouse_look_enabled s"
  let ?s0 = "s\<lparr>is_mouse_look_enabled := False, mouse_dir := Fin 0\<rparr>"
  show eq: "set_mouse_look_enabled s False = update_head (update_mouse_driving ?s0)"
    using en by (rule set_mouse_look_disable_from_enabled)
  show "mouse_dir (set_mouse_look_enabled s False) = Fin 0"
    unfolding eq by (simp add: update_head_def update_mouse_driving_def Let_def)
  show "\<not> is_mouse_look_enabled (set_mouse_look_enabled s False)"
    unfolding eq by (simp add: update_head_def update_mouse_driving_def Let_def)
  show "\<exists>l r la ra h. calls (vector (set_mouse_look_enabled s False)) =
         calls (vector s) @ [set_wheel_motors l r la ra, set_head_motor h]"
    unfolding eq by (simp add: update_head_def update_mouse_driving_def issue_def Let_def)
next
  assume "enabled \<or> enabled = is_mouse_look_enabled s"
  then show "vector (set_mouse_look_enabled s enabled) = vector s"
    by (auto simp: set_mouse_look_enabled_def Let_def)
  assume "enabled \<or> enabled = is_mouse_look_enabled s"
  then show "set_mouse_look_enabled s enabled =
        s\<lparr>is_mouse_look_enabled := enabled, mouse_dir := (if enabled then mouse_dir s else Fin 0)\<rparr>"
    by (auto simp: set_mouse_look_enabled_def Let_def)
next
  have off: "\<not> is_mouse_look_enabled (set_mouse_look_enabled s False)"
    by (simp add: set_mouse_look_enabled_def update_head_def update_mouse_driving_def Let_def)
  have md: "mouse_dir (set_mouse_look_enabled s False) = Fin 0"
    by (simp add: set_mouse_look_enabled_def update_head_def update_mouse_driving_def Let_def)
  show "set_mouse_look_enabled (set_mouse_look_enabled s False) False = set_mouse_look_enabled s False"
    using off md by (subst set_mouse_look_enabled_def) (simp add: Let_def)
qed

text \<open>Disabling with the forward, right and head-up keys held at slow speed and a mouse
  direction of 1; enabling; and re-disabling on the example session.\<close>

theorem set_mouse_look_enabled_recompute_witness:
  "is_mouse_look_enabled (example_session\<lparr>drive_forwards := 1, turn_right := 1, head_up := 1,
      go_slow := 1, is_mouse_look_enabled := True, mouse_dir := Fin 1\<rparr>) \<and>
   set_mouse_look_enabled (example_session\<lparr>drive_forwards := 1, turn_right := 1, head_up := 1,
      go_slow := 1, is_mouse_look_enabled := True, mouse_dir := Fin 1\<rparr>) False =
     example_session\<lparr>drive_forwards := 1, turn_right := 1, head_up := 1, go_slow := 1,
       is_mouse_look_enabled := False, mouse_dir := Fin 0,
       vector := example_robot\<lparr>calls :=
         [set_wheel_motors (Fin 80) (Fin 20) (Fin 320) (Fin 80), set_head_motor (Fin (1 / 2))]\<rparr>\<rparr> \<and>
   mouse_dir (set_mouse_look_enabled (example_session\<lparr>drive_forwards := 1, turn_right := 1,
      head_up := 1, go_slow := 1, is_mouse_look_enabled := True, mouse_dir := Fin 1\<rparr>) False) = Fin 0 \<and>
   calls (vector (set_mouse_look_enabled (example_session\<lparr>drive_forwards := 1, turn_right := 1,
      head_up := 1, go_slow := 1, is_mouse_look_enabled := True, mouse_dir := Fin 1\<rparr>) True)) = [] \<and>
   calls (vector (set_mouse_look_enabled example_session False)) = []"
proof -
  let ?s = "example_session\<lparr>drive_forwards := 1, turn_right := 1, head_up := 1,
      go_slow := 1, is_mouse_look_enabled := True, mouse_dir := Fin 1\<rparr>"
  have on: "is_mouse_look_enabled ?s" by simp
  have same: "False \<or> False = is_mouse_look_enabled example_session"
    by (simp add: example_session_def)
  note cmds = set_mouse_look_enabled_recompute [of ?s True, THEN conjunct1, THEN mp, OF on]
  note off = set_mouse_look_enabled_recompute [of ?s True, THEN conjunct2, THEN conjunct1,
      THEN mp, OF on, THEN conjunct1]
  note stay = set_mouse_look_enabled_recompute [of ?s True, THEN conjunct2, THEN conjunct2,
      THEN conjunct1, THEN mp]
  note idle = set_mouse_look_enabled_recompute [of example_session False,
      THEN conjunct2, THEN conjunct2, THEN conjunct1, THEN mp, OF same]
  have c: "set_mouse_look_enabled ?s False =
     example_session\<lparr>drive_forwards := 1, turn_right := 1, head_up := 1, go_slow := 1,
       is_mouse_look_enabled := False, mouse_dir := Fin 0,
       vector := example_robot\<lparr>calls :=
         [set_wheel_motors (Fin 80) (Fin 20) (Fin 320) (Fin 80), set_head_motor (Fin (1 / 2))]\<rparr>\<rparr>"
    using cmds
    by (simp add: Let_def pick_speed_def truthy_def example_session_def example_robot_def)
  have d: "calls (vector (set_mouse_look_enabled ?s True)) = []"
    using stay by (simp add: example_session_def example_robot_def)
  have e: "calls (vector (set_mouse_look_enabled example_session False)) = []"
    using idle by (simp add: example_session_def example_robot_def)
  from on c off d e show ?thesis by blast
qed

section \<open>Key events\<close>

lemma same_bindings_refl [simp]: "same_bindings s s"
  by (simp add: same_bindings_def)

lemma same_bindings_trans: "same_bindings s s' \<Longrightarrow> same_bindings s' s'' \<Longrightarrow> same_bindings s s''"
  by (simp add: same_bindings_def)

lemma same_bindings_update_mouse_driving [simp]: "same_bindings s (update_mouse_driving s)"
  by (simp add: same_bindings_def update_mouse_driving_def Let_def)

lemma same_bindings_update_head [simp]: "same_bindings s (update_head s)"
  by (simp add: same_bindings_def update_head_def Let_def)

lemma same_bindings_update_lift [simp]: "same_bindings s (update_lift s)"
  by (simp add: same_bindings_def update_lift_def Let_def)

lemma same_bindings_drive_state: "same_bindings s (snd (update_drive_state s k dn ch))"
  by (simp add: update_drive_state_def same_bindings_def)

lemma same_bindings_lift_state: "same_bindings s (snd (update_lift_state s k dn ch))"
  by (simp add: update_lift_state_def same_bindings_def)

lemma same_bindings_head_state: "same_bindings s (snd (update_head_state s k dn ch))"
  by (simp add: update_head_state_def same_bindings_def)

lemma handle_key_shape:
  "\<exists>s7. same_bindings s s7 \<and>
     handle_key s k sh al dn =
       (if \<not> dn then
          (if py_ord CHR ''9'' \<ge> k \<and> k \<ge> py_ord CHR ''0'' then
             (case key_code_to_anim_name s7 k of
                Inl e \<Rightarrow> Inl (e, s7)
              | Inr anim_name \<Rightarrow> Inr (queue_action s7 (play_animation, anim_name)))
           else if k = py_ord CHR '' '' then Inr (queue_action s7 (say_text, text_to_say s7))
           else Inr s7)
        else Inr s7)"
proof -
  let ?s1 = "s\<lparr>go_fast := sh, go_slow := al\<rparr>"
  let ?ch = "go_fast s \<noteq> go_fast ?s1 \<or> go_slow s \<noteq> go_slow ?s1"
  obtain d s2 where r2: "update_drive_state ?s1 k dn ?ch = (d, s2)" by (cases "update_drive_state ?s1 k dn ?ch")
  obtain l s3 where r3: "update_lift_state s2 k dn ?ch = (l, s3)" by (cases "update_lift_state s2 k dn ?ch")
  obtain h s4 where r4: "update_head_state s3 k dn ?ch = (h, s4)" by (cases "update_head_state s3 k dn ?ch")
  let ?s5 = "if d then update_mouse_driving s4 else s4"
  let ?s6 = "if h then update_head ?s5 else ?s5"
  let ?s7 = "if l then update_lift ?s6 else ?s6"
  have b1: "same_bindings s ?s1" by (simp add: same_bindings_def)
  have b2: "same_bindings ?s1 s2" using same_bindings_drive_state [of ?s1 k dn ?ch] unfolding r2 by simp
  have b3: "same_bindings s2 s3" using same_bindings_lift_state [of s2 k dn ?ch] unfolding r3 by simp
  have b4: "same_bindings s3 s4" using same_bindings_head_state [of s3 k dn ?ch] unfolding r4 by simp
  have b5: "same_bindings s4 ?s5" by simp
  have b6: "same_bindings ?s5 ?s6" by simp
  have b7: "same_bindings ?s6 ?s7" by simp
  have b: "same_bindings s ?s7"
    using b1 b2 b3 b4 b5 b6 b7 by (blast intro: same_bindings_trans)
  have "handle_key s k sh al dn =
       (if \<not> dn then
          (if py_ord CHR ''9'' \<ge> k \<and> k \<ge> py_ord CHR ''0'' then
             (case key_code_to_anim_name ?s7 k of
                Inl e \<Rightarrow> Inl (e, ?s7)
              | Inr anim_name \<Rightarrow> Inr (queue_action ?s7 (play_animation, anim_name)))
           else if k = py_ord CHR '' '' then Inr (queue_action ?s7 (say_text, text_to_say ?s7))
           else Inr ?s7)
        else Inr ?s7)"
    unfolding handle_key_def Let_def r2 r3 r4 prod.case ..
  with b show ?thesis by blast
qed

text \<open>
  Claim C4. On a key release: for a digit key whose binding is \<open>j\<close> and whose catalog
  entry \<open>j\<close> is \<open>name\<close>, \<open>handle_key\<close> returns normally and has enqueued exactly the
  action \<open>(play_animation, name)\<close>; for the space key it has enqueued exactly the action
  \<open>(say_text, text_to_say)\<close> with the text current at the release, and assigning
  \<open>text_to_say\<close> afterwards leaves the queue as it is. A key press, and the release of
  any other key, leave the queue unchanged.
\<close>

theorem handle_key_release_enqueues:
  "(\<not> dn \<and> py_ord CHR ''0'' \<le> k \<and> k \<le> py_ord CHR ''9'' \<and>
    py_get (anim_index_for_key s) (k - py_ord CHR ''0'') = Inr j \<and>
    py_get (anim_names s) j = Inr name \<longrightarrow>
      (\<exists>s'. handle_key s k sh al dn = Inr s' \<and>
            action_queue s' =
              (if 10 < length (action_queue s) then tl (action_queue s) else action_queue s)
              @ [(play_animation, name)])) \<and>
   (\<not> dn \<and> k = py_ord CHR '' '' \<longrightarrow>
      (\<exists>s'. handle_key s k sh al dn = Inr s' \<and>
            action_queue s' =
              (if 10 < length (action_queue s) then tl (action_queue s) else action_queue s)
              @ [(say_text, text_to_say s)] \<and>
            (\<forall>t. action_queue (set_text_to_say s' t) = action_queue s'))) \<and>
   (dn \<or> (k \<noteq> py_ord CHR '' '' \<and> (k < py_ord CHR ''0'' \<or> py_ord CHR ''9'' < k)) \<longrightarrow>
      (\<exists>s'. handle_key s k sh al dn = Inr s' \<and> action_queue s' = action_queue s))"
proof -
  obtain s7 where b: "same_bindings s s7"
    and hk: "handle_key s k sh al dn =
       (if \<not> dn then
          (if py_ord CHR ''9'' \<ge> k \<and> k \<ge> py_ord CHR ''0'' then
             (case key_code_to_anim_name s7 k of
                Inl e \<Rightarrow> Inl (e, s7)
              | Inr anim_name \<Rightarrow> Inr (queue_action s7 (play_animation, anim_name)))
           else if k = py_ord CHR '' '' then Inr (queue_action s7 (say_text, text_to_say s7))
           else Inr s7)
        else Inr s7)"
    using handle_key_shape [of s k sh al dn] by blast
  have q7: "action_queue s7 = action_queue s" and t7: "text_to_say s7 = text_to_say s"
    and n7: "anim_names s7 = anim_names s" and i7: "anim_index_for_key s7 = anim_index_for_key s"
    using b by (simp_all add: same_bindings_def)
  show ?thesis
  proof (intro conjI impI)
    assume h: "\<not> dn \<and> py_ord CHR ''0'' \<le> k \<and> k \<le> py_ord CHR ''9'' \<and>
      py_get (anim_index_for_key s) (k - py_ord CHR ''0'') = Inr j \<and>
      py_get (anim_names s) j = Inr name"
    then have "key_code_to_anim_name s7 k = Inr name"
      by (simp add: key_code_to_anim_name_def n7 i7)
    then have "handle_key s k sh al dn = Inr (queue_action s7 (play_animation, name))"
      unfolding hk using h by simp
    then show "\<exists>s'. handle_key s k sh al dn = Inr s' \<and>
            action_queue s' =
              (if 10 < length (action_queue s) then tl (action_queue s) else action_queue s)
              @ [(play_animation, name)]"
      by (simp add: queue_action_queue q7)
  next
    assume h: "\<not> dn \<and> k = py_ord CHR '' ''"
    have "handle_key s k sh al dn = Inr (queue_action s7 (say_text, text_to_say s))"
      unfolding hk using h by (simp add: t7 py_ord_def)
    then show "\<exists>s'. handle_key s k sh al dn = Inr s' \<and>
            action_queue s' =
              (if 10 < length (action_queue s) then tl (action_queue s) else action_queue s)
              @ [(say_text, text_to_say s)] \<and>
            (\<forall>t. action_queue (set_text_to_say s' t) = action_queue s')"
      by (simp add: queue_action_queue q7 set_text_to_say_def)
  next
    assume "dn \<or> (k \<noteq> py_ord CHR '' '' \<and> (k < py_ord CHR ''0'' \<or> py_ord CHR ''9'' < k))"
    then have "handle_key s k sh al dn = Inr s7"
      unfolding hk by auto
    then show "\<exists>s'. handle_key s k sh al dn = Inr s' \<and> action_queue s' = action_queue s"
      by (simp add: q7)
  qed
qed

text \<open>Releasing 5 (bound to entry 3, \<open>anim_x\<close>), releasing space with the text
  \<open>hello\<close>, pressing 5 and releasing W, on the example session.\<close>

theorem handle_key_release_enqueues_witness:
  "(\<exists>s'. handle_key example_session 53 0 0 False = Inr s' \<and>
         action_queue s' = [(play_animation, ''anim_x'')]) \<and>
   (\<exists>s'. handle_key example_session 32 0 0 False = Inr s' \<and>
         action_queue s' = [(say_text, ''hello'')] \<and>
         action_queue (set_text_to_say s' ''bye'') = [(say_text, ''hello'')]) \<and>
   (\<exists>s'. handle_key example_session 53 0 0 True = Inr s' \<and> action_queue s' = []) \<and>
   (\<exists>s'. handle_key example_session 87 0 0 False = Inr s' \<and> action_queue s' = [])"
proof -
  have d: "\<not> False \<and> py_ord CHR ''0'' \<le> 53 \<and> 53 \<le> py_ord CHR ''9'' \<and>
    py_get (anim_index_for_key example_session) (53 - py_ord CHR ''0'') = Inr 3 \<and>
    py_get (anim_names example_session) 3 = Inr ''anim_x''"
    by (simp add: py_ord_def py_get_def py_index_def example_session_def)
  have sp: "\<not> False \<and> (32::int) = py_ord CHR '' ''"
    by (simp add: py_ord_def)
  have dn: "True \<or> ((53::int) \<noteq> py_ord CHR '' '' \<and> (53 < py_ord CHR ''0'' \<or> py_ord CHR ''9'' < 53))"
    by simp
  have w: "False \<or> ((87::int) \<noteq> py_ord CHR '' '' \<and> (87 < py_ord CHR ''0'' \<or> py_ord CHR ''9'' < 87))"
    by (simp add: py_ord_def)
  note a1 = handle_key_release_enqueues [of False 53 example_session 3 "''anim_x''" 0 0,
      THEN conjunct1, THEN mp, OF d]
  note a2 = handle_key_release_enqueues [of False 32 example_session _ _ 0 0,
      THEN conjunct2, THEN conjunct1, THEN mp, OF sp]
  note a3 = handle_key_release_enqueues [of True 53 example_session _ _ 0 0,
      THEN conjunct2, THEN conjunct2, THEN mp, OF dn]
  note a4 = handle_key_release_enqueues [of False 87 example_session _ _ 0 0,
      THEN conjunct2, THEN conjunct2, THEN mp, OF w]
  have q: "action_queue example_session = []" and t: "text_to_say example_session = ''hello''"
    by (simp_all add: example_session_def)
  from a1 have b1: "\<exists>s'. handle_key example_session 53 0 0 False = Inr s' \<and>
         action_queue s' = [(play_animation, ''anim_x'')]"
    by (simp add: q)
  from a2 have b2: "\<exists>s'. handle_key example_session 32 0 0 False = Inr s' \<and>
         action_queue s' = [(say_text, ''hello'')] \<and>
         action_queue (set_text_to_say s' ''bye'') = [(say_text, ''hello'')]"
    by (fastforce simp: q t)
  from a3 have b3: "\<exists>s'. handle_key example_session 53 0 0 True = Inr s' \<and> action_queue s' = []"
    by (simp add: q)
  from a4 have b4: "\<exists>s'. handle_key example_session 87 0 0 False = Inr s' \<and> action_queue s' = []"
    by (simp add: q)
  from b1 b2 b3 b4 show ?thesis by blast
qed

section \<open>Rebinding a digit key\<close>

lemma py_set_negative:
  "i < 0 \<Longrightarrow> - int (length xs) \<le> i \<Longrightarrow> py_set xs i v = Inr (xs[nat (int (length xs) + i) := v])"
  by (simp add: py_set_def py_index_def)

lemma py_set_outside:
  "i < - int (length xs) \<or> int (length xs) \<le> i \<Longrightarrow> py_set xs i v = Inl IndexError"
  by (auto simp: py_set_def py_index_def)

text \<open>
  Claim C7, as amended. For a slot outside 0..9, \<open>set_anim\<close> raises \<open>IndexError\<close> and
  leaves the session unchanged when the slot is below -10 or above 9; for a slot from
  -10 to -1 it rebinds digit key \<open>slot + 10\<close> to the given catalog index and changes
  nothing else (a negative index counts from the end of the list).
\<close>

theorem set_anim_outside_slots:
  "length (anim_index_for_key s) = 10 \<Longrightarrow>
   (slot < - 10 \<or> 9 < slot \<longrightarrow> set_anim s slot j = Inl (IndexError, s)) \<and>
   (- 10 \<le> slot \<and> slot < 0 \<longrightarrow>
      set_anim s slot j =
        Inr (s\<lparr>anim_index_for_key := (anim_index_for_key s)[nat (10 + slot) := j]\<rparr>))"
  by (auto simp: set_anim_def py_set_outside py_set_negative)

text \<open>Slots 12, -11 and -2 on the example session.\<close>

theorem set_anim_outside_slots_witness:
  "length (anim_index_for_key example_session) = 10 \<and>
   set_anim example_session 12 3 = Inl (IndexError, example_session) \<and>
   set_anim example_session (- 11) 3 = Inl (IndexError, example_session) \<and>
   set_anim example_session (- 2) 1 =
     Inr (example_session\<lparr>anim_index_for_key := [0, 1, 2, 3, 0, 3, 1, 2, 1, 0]\<rparr>)"
proof -
  have l: "length (anim_index_for_key example_session) = 10"
    by (simp add: example_session_def)
  have u: "(anim_index_for_key example_session)[nat (10 + (- 2)) := 1] = [0, 1, 2, 3, 0, 3, 1, 2, 1, 0]"
    by (simp add: example_session_def)
  from l set_anim_outside_slots [OF l, of 12 3] set_anim_outside_slots [OF l, of "- 11" 3]
    set_anim_outside_slots [OF l, of "- 2" 1] u
  show ?thesis by simp
qed

text \<open>Claim C7 as stated fails: slot 10 raises \<open>IndexError\<close>, and slot -1 changes the
  binding of digit key 9.\<close>

theorem set_anim_outside_slots_counterexample:
  "set_anim example_session 10 0 = Inl (IndexError, example_session) \<and>
   set_anim example_session (- 1) 2 =
     Inr (example_session\<lparr>anim_index_for_key := [0, 1, 2, 3, 0, 3, 1, 2, 3, 2]\<rparr>) \<and>
   example_session\<lparr>anim_index_for_key := [0, 1, 2, 3, 0, 3, 1, 2, 3, 2]\<rparr> \<noteq> example_session"
  by (simp add: set_anim_def py_set_def py_index_def example_session_def)

section \<open>The queue listings\<close>

lemma str_nat_digit: "n < 10 \<Longrightarrow> str_nat n = [digit_chr n]"
  by (subst str_nat.simps) simp

lemma queue_text_loop_eq:
  "queue_text_loop s q out_text i =
     (out_text @ concat (map (\<lambda>(n, a). ''['' @ str_nat n @ ''] '' @ action_to_text s a)
                             (enumerate i q)), s)"
  by (induction q arbitrary: out_text i) (simp_all)

lemma update_text_loop_eq:
  "update_text_loop s q out_text i =
     out_text @ concat (map (\<lambda>(n, a). str_nat n @ '': '' @ action_to_text s a @ ''<br>'')
                            (enumerate i q))"
  by (induction q arbitrary: out_text i) (simp_all)

text \<open>
  Claim C9, as amended. \<open>action_queue_to_text\<close> returns the listing of the given queue in
  queue order, each entry as \<open>[i] name( arg )\<close> with \<open>i\<close> counted from 0, and returns
  the session as it received it: no field changes and the robot is not called. The
  listing counted from 1 is the one of \<open>handle_updateVector\<close>, which calls \<open>update\<close>
  first and lists the queue that \<open>update\<close> leaves.
\<close>

theorem action_queue_to_text_listing:
  "action_queue_to_text s q =
     (concat (map (\<lambda>(n, a). ''['' @ str_nat n @ ''] '' @ action_to_text s a) (enumerate 0 q)), s) \<and>
   handle_updateVector s =
     (''Action Queue:<br>'' @
      concat (map (\<lambda>(n, a). str_nat n @ '': '' @ action_to_text (update s) a @ ''<br>'')
                  (enumerate 1 (action_queue (update s)))) @ [CHR 0x0A],
      update s)"
  by (simp add: action_queue_to_text_def queue_text_loop_eq handle_updateVector_def
      update_text_loop_eq Let_def)

text \<open>A queue of two actions listed by \<open>action_queue_to_text\<close>, and a queue of one
  action listed by \<open>handle_updateVector\<close>, which calls the robot.\<close>

theorem action_queue_to_text_listing_witness:
  "action_queue_to_text example_session [(say_text, ''hello''), (play_animation, ''anim_x'')] =
     (''[0] say_text( hello )[1] play_anim( anim_x )'', example_session) \<and>
   fst (handle_updateVector (example_session\<lparr>action_queue := [(say_text, ''hello'')]\<rparr>)) =
     ''Action Queue:<br>1: say_text( hello )<br>'' @ [CHR 0x0A] \<and>
   calls (vector (snd (handle_updateVector
     (example_session\<lparr>action_queue := [(say_text, ''hello'')]\<rparr>)))) = [invoke say_text ''hello'']"
proof -
  let ?q = "[(say_text, ''hello''), (play_animation, ''anim_x'')]"
  let ?s = "example_session\<lparr>action_queue := [(say_text, ''hello'')]\<rparr>"
  have u: "update ?s = ?s\<lparr>vector := issue (invoke say_text ''hello'') (vector ?s)\<rparr>"
    by (simp add: update_def dispatch_def example_session_def example_robot_def)
  have a: "action_queue_to_text example_session ?q =
     (''[0] say_text( hello )[1] play_anim( anim_x )'', example_session)"
    using action_queue_to_text_listing [of example_session ?q, THEN conjunct1]
    by (simp add: enumerate_simps str_nat_digit digit_chr_def action_to_text_def func_to_name_def)
  note h = action_queue_to_text_listing [of ?s, THEN conjunct2]
  have b: "fst (handle_updateVector ?s) = ''Action Queue:<br>1: say_text( hello )<br>'' @ [CHR 0x0A]"
    unfolding h u
    by (simp add: enumerate_simps str_nat_digit digit_chr_def action_to_text_def func_to_name_def)
  have c: "calls (vector (snd (handle_updateVector ?s))) = [invoke say_text ''hello'']"
    unfolding h u by (simp add: issue_def example_session_def example_robot_def)
  from a b c show ?thesis by blast
qed

text \<open>Claim C9 as stated fails: the first entry of the listing has the number 0.\<close>

theorem action_queue_to_text_counterexample:
  "fst (action_queue_to_text example_session [(say_text, ''hi'')]) = ''[0] say_text( hi )''"
  by (simp add: action_queue_to_text_def str_nat_digit digit_chr_def action_to_text_def
      func_to_name_def)

section \<open>What each operation leaves alone\<close>

lemma queue_action_fields [simp]:
  "mouse_dir (queue_action s a) = mouse_dir s"
  "anim_names (queue_action s a) = anim_names s"
  "anim_index_for_key (queue_action s a) = anim_index_for_key s"
  by (simp_all add: queue_action_def Let_def)

lemma update_fields [simp]:
  "mouse_dir (update s) = mouse_dir s"
  "anim_names (update s) = anim_names s"
  "anim_index_for_key (update s) = anim_index_for_key s"
  by (simp_all add: update_def dispatch_def Let_def split: list.splits prod.splits)

lemma set_text_to_say_fields [simp]:
  "mouse_dir (set_text_to_say s t) = mouse_dir s"
  "anim_names (set_text_to_say s t) = anim_names s"
  "anim_index_for_key (set_text_to_say s t) = anim_index_for_key s"
  by (simp_all add: set_text_to_say_def)

lemma update_mouse_driving_fields [simp]:
  "mouse_dir (update_mouse_driving s) = mouse_dir s"
  "anim_names (update_mouse_driving s) = anim_names s"
  "anim_index_for_key (update_mouse_driving s) = anim_index_for_key s"
  by (simp_all add: update_mouse_driving_def Let_def)

lemma update_head_fields [simp]:
  "mouse_dir (update_head s) = mouse_dir s"
  "anim_names (update_head s) = anim_names s"
  "anim_index_for_key (update_head s) = anim_index_for_key s"
  by (simp_all add: update_head_def Let_def)

lemma set_mouse_look_enabled_fields [simp]:
  "anim_names (set_mouse_look_enabled s b) = anim_names s"
  "anim_index_for_key (set_mouse_look_enabled s b) = anim_index_for_key s"
  by (simp_all add: set_mouse_look_enabled_def Let_def)

lemma set_mouse_look_enabled_mouse_dir:
  "mouse_dir (set_mouse_look_enabled s b) = (if b then mouse_dir s else Fin 0)"
  by (simp add: set_mouse_look_enabled_def Let_def)

lemma set_mouse_look_enabled_flag:
  "is_mouse_look_enabled (set_mouse_look_enabled s b) = b"
  by (simp add: set_mouse_look_enabled_def update_head_def Let_def)

text \<open>\<open>remap_to_range\<close> from 0..1: a finite input is clamped and interpolated, an
  infinity is clamped, NaN passes both comparisons and comes out as NaN.\<close>

lemma remap_to_range_unit:
  "remap_to_range x (Fin 0) (Fin 1) (Fin lo) (Fin hi) =
     Inr (case x of
            Fin r \<Rightarrow> Fin (if r < 0 then lo else if 1 < r then hi else lo + r * (hi - lo))
          | PInf \<Rightarrow> Fin hi
          | NInf \<Rightarrow> Fin lo
          | NaN \<Rightarrow> NaN)"
  by (cases x) (simp_all add: remap_to_range_def minus_py_float_def)

lemma remap_to_range_clamps:
  "x \<noteq> NaN \<Longrightarrow>
   \<exists>y. remap_to_range x (Fin 0) (Fin 1) (Fin (- (3 / 2))) (Fin (3 / 2)) = Inr y \<and>
       Fin (- (3 / 2)) \<le> y \<and> y \<le> Fin (3 / 2) \<and>
       (x < Fin 0 \<longrightarrow> y = Fin (- (3 / 2))) \<and> (Fin 1 < x \<longrightarrow> y = Fin (3 / 2))"
  by (cases x) (auto simp: remap_to_range_unit)

lemma handle_mouse_never_raises:
  "\<exists>s'. handle_mouse s x y = Inr s'"
  by (simp add: handle_mouse_def remap_to_range_unit Let_def)

lemma handle_mouse_fields [simp]:
  "anim_names (state_after (handle_mouse s x y)) = anim_names s"
  "anim_index_for_key (state_after (handle_mouse s x y)) = anim_index_for_key s"
  by (simp_all add: handle_mouse_def remap_to_range_unit Let_def state_after_def)

lemma handle_mouse_mouse_dir:
  "mouse_dir (state_after (handle_mouse s x y)) =
     (if is_mouse_look_enabled s
      then (case x of
              Fin r \<Rightarrow> Fin (if r < 0 then - (3 / 2) else if 1 < r then 3 / 2
                            else - (3 / 2) + r * 3)
            | PInf \<Rightarrow> Fin (3 / 2)
            | NInf \<Rightarrow> Fin (- (3 / 2))
            | NaN \<Rightarrow> NaN)
      else mouse_dir s)"
  by (cases x) (simp_all add: handle_mouse_def remap_to_range_unit Let_def state_after_def)

lemma handle_key_fields:
  "mouse_dir (state_after (handle_key s k sh al dn)) = mouse_dir s \<and>
   anim_names (state_after (handle_key s k sh al dn)) = anim_names s \<and>
   anim_index_for_key (state_after (handle_key s k sh al dn)) = anim_index_for_key s"
proof -
  obtain s7 where b: "same_bindings s s7"
    and hk: "handle_key s k sh al dn =
       (if \<not> dn then
          (if py_ord CHR ''9'' \<ge> k \<and> k \<ge> py_ord CHR ''0'' then
             (case key_code_to_anim_name s7 k of
                Inl e \<Rightarrow> Inl (e, s7)
              | Inr anim_name \<Rightarrow> Inr (queue_action s7 (play_animation, anim_name)))
           else if k = py_ord CHR '' '' then Inr (queue_action s7 (say_text, text_to_say s7))
           else Inr s7)
        else Inr s7)"
    using handle_key_shape [of s k sh al dn] by blast
  show ?thesis
    unfolding hk using b
    by (simp add: same_bindings_def state_after_def split: sum.splits)
qed

lemma set_anim_fields [simp]:
  "mouse_dir (state_after (set_anim s k j)) = mouse_dir s"
  "anim_names (state_after (set_anim s k j)) = anim_names s"
  by (simp_all add: set_anim_def state_after_def split: sum.splits)

lemma apply_op_anim_names:
  "anim_names (state_after (apply_op s c)) = anim_names s"
  by (cases c) (simp_all add: handle_key_fields, simp_all add: state_after_def)

lemma run_anim_names [simp]: "anim_names (run s cs) = anim_names s"
  by (induction cs arbitrary: s) (simp_all add: apply_op_anim_names)

section \<open>The capacity of the queue\<close>

lemma update_queue:
  "action_queue (update s) = action_queue s \<or> action_queue (update s) = tl (action_queue s)"
  by (simp add: update_def dispatch_def Let_def split: list.splits prod.splits)

lemma handle_key_queue:
  "action_queue (state_after (handle_key s k sh al dn)) = action_queue s \<or>
   (\<exists>a. action_queue (state_after (handle_key s k sh al dn)) =
      (if 10 < length (action_queue s) then tl (action_queue s) else action_queue s) @ [a])"
proof -
  obtain s7 where b: "same_bindings s s7"
    and hk: "handle_key s k sh al dn =
       (if \<not> dn then
          (if py_ord CHR ''9'' \<ge> k \<and> k \<ge> py_ord CHR ''0'' then
             (case key_code_to_anim_name s7 k of
                Inl e \<Rightarrow> Inl (e, s7)
              | Inr anim_name \<Rightarrow> Inr (queue_action s7 (play_animation, anim_name)))
           else if k = py_ord CHR '' '' then Inr (queue_action s7 (say_text, text_to_say s7))
           else Inr s7)
        else Inr s7)"
    using handle_key_shape [of s k sh al dn] by blast
  have q7: "action_queue s7 = action_queue s"
    using b by (simp add: same_bindings_def)
  show ?thesis
    unfolding hk
    by (simp add: state_after_def queue_action_queue q7 split: sum.splits)
qed

lemma other_ops_queue [simp]:
  "action_queue (state_after (handle_mouse s x y)) = action_queue s"
  "action_queue (set_mouse_look_enabled s b) = action_queue s"
  "action_queue (state_after (set_anim s k j)) = action_queue s"
  "action_queue (set_text_to_say s t) = action_queue s"
  by (simp_all add: handle_mouse_def remap_to_range_unit set_mouse_look_enabled_def
      update_head_def update_mouse_driving_def set_anim_def set_text_to_say_def
      state_after_def Let_def split: sum.splits)

lemma apply_op_queue_length:
  assumes "length (action_queue s) \<le> 11"
  shows "length (action_queue (state_after (apply_op s c))) \<le> 11"
proof (cases c)
  case (HandleKey k sh al dn)
  then show ?thesis
    using assms handle_key_queue [of s k sh al dn] by auto
next
  case (QueueAction a)
  then show ?thesis
    using assms by (auto simp: state_after_def queue_action_queue)
next
  case Update
  then show ?thesis
    using assms update_queue [of s] by (auto simp: state_after_def)
qed (use assms in \<open>simp_all, simp_all add: state_after_def\<close>)

lemma run_queue_length:
  "length (action_queue s) \<le> 11 \<Longrightarrow> length (action_queue (run s cs)) \<le> 11"
proof (induction cs arbitrary: s)
  case Nil
  then show ?case by simp
next
  case (Cons c cs)
  show ?case
    unfolding run.simps by (rule Cons.IH [OF apply_op_queue_length [OF Cons.prems]])
qed

lemma init_action_queue: "action_queue (init rbt) = []"
  by (simp add: init_def Let_def)

text \<open>
  Claim C2. \<open>queue_action\<close> removes the entry at index 0 when the queue holds more than
  10 entries before the append, then appends the new action at the tail. So a queue of
  at most 11 entries stays at most 11 long over every sequence of enqueues; from the
  empty queue the result is the last 11 of the actions enqueued, in their order; and 12
  enqueues from empty leave the 11 actions after the first. The bound of 11 also holds
  over every sequence of operations of the session, from a new session in particular.
\<close>

theorem queue_action_capacity:
  "action_queue (queue_action s a) =
     (if 10 < length (action_queue s) then tl (action_queue s) else action_queue s) @ [a] \<and>
   (length (action_queue s) \<le> 11 \<longrightarrow>
      length (action_queue (foldl queue_action s as)) \<le> 11) \<and>
   (action_queue s = [] \<longrightarrow>
      action_queue (foldl queue_action s as) = drop (length as - 11) as) \<and>
   (action_queue s = [] \<and> length as = 12 \<longrightarrow>
      action_queue (foldl queue_action s as) = tl as \<and>
      length (action_queue (foldl queue_action s as)) = 11) \<and>
   (length (action_queue s) \<le> 11 \<longrightarrow> length (action_queue (run s ops)) \<le> 11) \<and>
   length (action_queue (run (init rbt) ops)) \<le> 11"
proof (intro conjI impI)
  show "action_queue (queue_action s a) =
     (if 10 < length (action_queue s) then tl (action_queue s) else action_queue s) @ [a]"
    by (rule queue_action_queue)
next
  assume "length (action_queue s) \<le> 11"
  then show "length (action_queue (foldl queue_action s as)) \<le> 11"
    by (simp add: enqueue_all_gen)
next
  assume "action_queue s = []"
  then show "action_queue (foldl queue_action s as) = drop (length as - 11) as"
    by (simp add: enqueue_all_gen)
next
  assume h: "action_queue s = [] \<and> length as = 12"
  then have eq: "action_queue (foldl queue_action s as) = drop 1 as"
    by (simp add: enqueue_all_gen)
  show "action_queue (foldl queue_action s as) = tl as"
    unfolding eq by (simp add: drop_Suc)
  show "length (action_queue (foldl queue_action s as)) = 11"
    unfolding eq using h by simp
next
  assume "length (action_queue s) \<le> 11"
  then show "length (action_queue (run s ops)) \<le> 11"
    by (rule run_queue_length)
next
  show "length (action_queue (run (init rbt) ops)) \<le> 11"
    by (rule run_queue_length) (simp add: init_action_queue)
qed

text \<open>Twelve actions enqueued on the empty queue of the example session, and a
  sequence of three operations on it.\<close>

theorem queue_action_capacity_witness:
  "action_queue example_session = [] \<and>
   length (map (Pair say_text) [''a'', ''b'', ''c'', ''d'', ''e'', ''f'', ''g'', ''h'', ''i'', ''j'', ''k'', ''l'']) = 12 \<and>
   action_queue (foldl queue_action example_session
      (map (Pair say_text) [''a'', ''b'', ''c'', ''d'', ''e'', ''f'', ''g'', ''h'', ''i'', ''j'', ''k'', ''l''])) =
      map (Pair say_text) [''b'', ''c'', ''d'', ''e'', ''f'', ''g'', ''h'', ''i'', ''j'', ''k'', ''l''] \<and>
   length (action_queue (foldl queue_action example_session
      (map (Pair say_text) [''a'', ''b'', ''c'', ''d'', ''e'', ''f'', ''g'', ''h'', ''i'', ''j'', ''k'', ''l'']))) \<le> 11 \<and>
   length (action_queue (run example_session
      [HandleKey 32 0 0 False, QueueAction (say_text, ''a''), Update])) \<le> 11"
proof -
  let ?as = "map (Pair say_text) [''a'', ''b'', ''c'', ''d'', ''e'', ''f'', ''g'', ''h'', ''i'', ''j'', ''k'', ''l'']"
  let ?ops = "[HandleKey 32 0 0 False, QueueAction (say_text, ''a''), Update]"
  have e: "action_queue example_session = []"
    by (simp add: example_session_def)
  have l: "length (action_queue example_session) \<le> 11"
    by (simp add: e)
  have h: "action_queue example_session = [] \<and> length ?as = 12"
    by (simp add: e)
  note cap = queue_action_capacity [of example_session _ ?as ?ops]
  note bounded = cap [THEN conjunct2, THEN conjunct1, THEN mp, OF l]
  note last11 = cap [THEN conjunct2, THEN conjunct2, THEN conjunct1, THEN mp, OF e]
  note twelve = cap [THEN conjunct2, THEN conjunct2, THEN conjunct2, THEN conjunct1, THEN mp, OF h,
      THEN conjunct1]
  note ops = cap [THEN conjunct2, THEN conjunct2, THEN conjunct2, THEN conjunct2, THEN conjunct1,
      THEN mp, OF l]
  have d: "drop (length ?as - 11) ?as = tl ?as" by simp
  from h twelve bounded ops last11 d show ?thesis by simp
qed

section \<open>The mouse direction\<close>

lemma apply_op_mouse_dir:
  assumes "mouse_dir_in_range s" and "mouse_x_ok c"
  shows "mouse_dir_in_range (state_after (apply_op s c))"
proof (cases c)
  case (HandleKey k sh al dn)
  then show ?thesis using assms by (simp add: handle_key_fields mouse_dir_in_range_def)
next
  case (HandleMouse x y)
  then show ?thesis using assms
    by (cases x) (auto simp: handle_mouse_mouse_dir mouse_dir_in_range_def)
next
  case (SetMouseLookEnabled b)
  then show ?thesis using assms
    by (simp add: state_after_def set_mouse_look_enabled_mouse_dir mouse_dir_in_range_def)
next
  case (SetAnim k j)
  then show ?thesis using assms by (simp add: mouse_dir_in_range_def)
next
  case (SetTextToSay t)
  then show ?thesis using assms by (simp add: state_after_def mouse_dir_in_range_def)
next
  case (QueueAction a)
  then show ?thesis using assms by (simp add: state_after_def mouse_dir_in_range_def)
next
  case Update
  then show ?thesis using assms by (simp add: state_after_def mouse_dir_in_range_def)
qed

lemma run_mouse_dir:
  "mouse_dir_in_range s \<Longrightarrow> list_all mouse_x_ok cs \<Longrightarrow> mouse_dir_in_range (run s cs)"
proof (induction cs arbitrary: s)
  case Nil
  then show ?case by simp
next
  case (Cons c cs)
  from Cons.prems have c: "mouse_x_ok c" and cs: "list_all mouse_x_ok cs" by simp_all
  show ?case
    unfolding run.simps by (rule Cons.IH [OF apply_op_mouse_dir [OF Cons.prems(1) c] cs])
qed

lemma init_mouse_dir: "mouse_dir (init rbt) = Fin 0"
  by (simp add: init_def Let_def)

lemma init_mouse_dir_in_range: "mouse_dir_in_range (init rbt)"
  by (simp add: mouse_dir_in_range_def init_mouse_dir)

lemma remap_to_range_below: "x < x_min \<Longrightarrow> remap_to_range x x_min x_max out_min out_max = Inr out_min"
  by (simp add: remap_to_range_def)

lemma remap_to_range_above:
  "\<not> x < x_min \<Longrightarrow> x_max < x \<Longrightarrow> remap_to_range x x_min x_max out_min out_max = Inr out_max"
  by (simp add: remap_to_range_def)

text \<open>
  Claim C10, as amended. For every x coordinate other than NaN, finite or infinite,
  \<open>remap_to_range\<close> from 0..1 to -1.5..1.5 returns a value in [-1.5, 1.5]: an input
  below 0 gives -1.5 and an input above 1 gives 1.5. So the stored \<open>mouse_dir\<close> stays in
  [-1.5, 1.5] over every sequence of operations in which no \<open>handle_mouse\<close> call passes
  NaN as x, from a session where it is in that interval and so from a new session. For
  NaN both comparisons of \<open>remap_to_range\<close> are false and the interpolation returns NaN,
  which \<open>handle_mouse\<close> stores in \<open>mouse_dir\<close> when mouse look is enabled. The last
  parts give every write of \<open>mouse_dir\<close>: 0 at creation, the remapped x coordinate in
  \<open>handle_mouse\<close> when mouse look is enabled, 0 when mouse look is disabled; and what
  \<open>remap_to_range\<close> returns, for any range below and above it and from 0..1 to
  -1.5..1.5 for every input.
\<close>

theorem mouse_dir_bounded:
  "(\<forall>x. x \<noteq> NaN \<longrightarrow>
      (\<exists>d. remap_to_range x (Fin 0) (Fin 1) (Fin (- (3 / 2))) (Fin (3 / 2)) = Inr d \<and>
           Fin (- (3 / 2)) \<le> d \<and> d \<le> Fin (3 / 2) \<and>
           (x < Fin 0 \<longrightarrow> d = Fin (- (3 / 2))) \<and> (Fin 1 < x \<longrightarrow> d = Fin (3 / 2)))) \<and>
   (mouse_dir_in_range s \<and> list_all mouse_x_ok ops \<longrightarrow> mouse_dir_in_range (run s ops)) \<and>
   (list_all mouse_x_ok ops \<longrightarrow> mouse_dir_in_range (run (init rbt) ops)) \<and>
   remap_to_range NaN (Fin 0) (Fin 1) (Fin (- (3 / 2))) (Fin (3 / 2)) = Inr NaN \<and>
   (is_mouse_look_enabled s \<longrightarrow> mouse_dir (state_after (handle_mouse s NaN y)) = NaN) \<and>
   mouse_dir (init rbt) = Fin 0 \<and>
   mouse_dir (state_after (handle_mouse s mouse_x y)) =
     (if is_mouse_look_enabled s
      then (case mouse_x of
              Fin r \<Rightarrow> Fin (if r < 0 then - (3 / 2) else if 1 < r then 3 / 2
                            else - (3 / 2) + r * 3)
            | PInf \<Rightarrow> Fin (3 / 2)
            | NInf \<Rightarrow> Fin (- (3 / 2))
            | NaN \<Rightarrow> NaN)
      else mouse_dir s) \<and>
   mouse_dir (set_mouse_look_enabled s enabled) = (if enabled then mouse_dir s else Fin 0) \<and>
   (v < x_min \<longrightarrow> remap_to_range v x_min x_max out_min out_max = Inr out_min) \<and>
   (\<not> v < x_min \<and> x_max < v \<longrightarrow> remap_to_range v x_min x_max out_min out_max = Inr out_max) \<and>
   remap_to_range mouse_x (Fin 0) (Fin 1) (Fin (- (3 / 2))) (Fin (3 / 2)) =
     Inr (case mouse_x of
            Fin r \<Rightarrow> Fin (if r < 0 then - (3 / 2) else if 1 < r then 3 / 2
                          else - (3 / 2) + r * 3)
          | PInf \<Rightarrow> Fin (3 / 2)
          | NInf \<Rightarrow> Fin (- (3 / 2))
          | NaN \<Rightarrow> NaN)"
proof (intro conjI allI impI)
  fix x :: py_float
  assume "x \<noteq> NaN"
  then show "\<exists>d. remap_to_range x (Fin 0) (Fin 1) (Fin (- (3 / 2))) (Fin (3 / 2)) = Inr d \<and>
           Fin (- (3 / 2)) \<le> d \<and> d \<le> Fin (3 / 2) \<and>
           (x < Fin 0 \<longrightarrow> d = Fin (- (3 / 2))) \<and> (Fin 1 < x \<longrightarrow> d = Fin (3 / 2))"
    by (rule remap_to_range_clamps)
next
  assume "mouse_dir_in_range s \<and> list_all mouse_x_ok ops"
  then show "mouse_dir_in_range (run s ops)"
    by (simp add: run_mouse_dir)
next
  assume "list_all mouse_x_ok ops"
  then show "mouse_dir_in_range (run (init rbt) ops)"
    by (simp add: run_mouse_dir init_mouse_dir_in_range)
next
  show "remap_to_range NaN (Fin 0) (Fin 1) (Fin (- (3 / 2))) (Fin (3 / 2)) = Inr NaN"
    by (simp add: remap_to_range_unit)
next
  assume "is_mouse_look_enabled s"
  then show "mouse_dir (state_after (handle_mouse s NaN y)) = NaN"
    by (simp add: handle_mouse_mouse_dir)
next
  show "mouse_dir (init rbt) = Fin 0"
    by (rule init_mouse_dir)
next
  show "mouse_dir (state_after (handle_mouse s mouse_x y)) =
     (if is_mouse_look_enabled s
      then (case mouse_x of
              Fin r \<Rightarrow> Fin (if r < 0 then - (3 / 2) else if 1 < r then 3 / 2
                            else - (3 / 2) + r * 3)
            | PInf \<Rightarrow> Fin (3 / 2)
            | NInf \<Rightarrow> Fin (- (3 / 2))
            | NaN \<Rightarrow> NaN)
      else mouse_dir s)"
    by (rule handle_mouse_mouse_dir)
next
  show "mouse_dir (set_mouse_look_enabled s enabled) = (if enabled then mouse_dir s else Fin 0)"
    by (rule set_mouse_look_enabled_mouse_dir)
next
  assume "v < x_min"
  then show "remap_to_range v x_min x_max out_min out_max = Inr out_min"
    by (rule remap_to_range_below)
next
  assume "\<not> v < x_min \<and> x_max < v"
  then show "remap_to_range v x_min x_max out_min out_max = Inr out_max"
    by (simp add: remap_to_range_above)
next
  show "remap_to_range mouse_x (Fin 0) (Fin 1) (Fin (- (3 / 2))) (Fin (3 / 2)) =
     Inr (case mouse_x of
            Fin r \<Rightarrow> Fin (if r < 0 then - (3 / 2) else if 1 < r then 3 / 2
                          else - (3 / 2) + r * 3)
          | PInf \<Rightarrow> Fin (3 / 2)
          | NInf \<Rightarrow> Fin (- (3 / 2))
          | NaN \<Rightarrow> NaN)"
    by (cases mouse_x) (simp_all add: remap_to_range_unit)
qed

text \<open>Mouse positions 7, -4 and infinity, outside 0..1, from a new session and from the
  example session with mouse look enabled.\<close>

theorem mouse_dir_bounded_witness:
  "remap_to_range (Fin 7) (Fin 0) (Fin 1) (Fin (- (3 / 2))) (Fin (3 / 2)) = Inr (Fin (3 / 2)) \<and>
   remap_to_range (Fin (- 4)) (Fin 0) (Fin 1) (Fin (- (3 / 2))) (Fin (3 / 2)) = Inr (Fin (- (3 / 2))) \<and>
   remap_to_range PInf (Fin 0) (Fin 1) (Fin (- (3 / 2))) (Fin (3 / 2)) = Inr (Fin (3 / 2)) \<and>
   list_all mouse_x_ok
     [SetMouseLookEnabled True, HandleMouse (Fin 7) (Fin (1 / 2)), HandleKey 87 1 0 True,
      HandleMouse NInf NaN] \<and>
   mouse_dir_in_range (run (init example_robot)
     [SetMouseLookEnabled True, HandleMouse (Fin 7) (Fin (1 / 2)), HandleKey 87 1 0 True,
      HandleMouse NInf NaN]) \<and>
   mouse_dir_in_range (example_session\<lparr>is_mouse_look_enabled := True\<rparr>) \<and>
   mouse_dir_in_range (run (example_session\<lparr>is_mouse_look_enabled := True\<rparr>)
     [SetMouseLookEnabled True, HandleMouse (Fin 7) (Fin (1 / 2)), HandleKey 87 1 0 True,
      HandleMouse NInf NaN]) \<and>
   mouse_dir (run (example_session\<lparr>is_mouse_look_enabled := True\<rparr>)
     [HandleMouse (Fin 7) (Fin (1 / 2))]) = Fin (3 / 2) \<and>
   mouse_dir (state_after (handle_mouse (example_session\<lparr>is_mouse_look_enabled := True\<rparr>)
     NaN (Fin (1 / 2)))) = NaN \<and>
   mouse_dir (state_after (handle_mouse (example_session\<lparr>is_mouse_look_enabled := True\<rparr>)
     (Fin (1 / 4)) (Fin (1 / 2)))) = Fin (- (3 / 4)) \<and>
   remap_to_range (Fin (- 4)) (Fin 0) (Fin 1) (Fin 45) (Fin (- 25)) = Inr (Fin 45) \<and>
   remap_to_range (Fin 7) (Fin 0) (Fin 1) (Fin 45) (Fin (- 25)) = Inr (Fin (- 25))"
proof -
  let ?ops = "[SetMouseLookEnabled True, HandleMouse (Fin 7) (Fin (1 / 2)), HandleKey 87 1 0 True,
      HandleMouse NInf NaN]"
  let ?s = "example_session\<lparr>is_mouse_look_enabled := True\<rparr>"
  note inv = mouse_dir_bounded [where s = ?s and ops = ?ops and rbt = example_robot
      and y = "Fin (1 / 2)"]
  have x7: "Fin 7 \<noteq> NaN" and x4: "Fin (- 4) \<noteq> NaN" and xi: "PInf \<noteq> NaN" by simp_all
  from inv [THEN conjunct1, rule_format, OF x7]
  have a: "remap_to_range (Fin 7) (Fin 0) (Fin 1) (Fin (- (3 / 2))) (Fin (3 / 2)) = Inr (Fin (3 / 2))"
    by auto
  from inv [THEN conjunct1, rule_format, OF x4]
  have b: "remap_to_range (Fin (- 4)) (Fin 0) (Fin 1) (Fin (- (3 / 2))) (Fin (3 / 2)) =
           Inr (Fin (- (3 / 2)))"
    by auto
  from inv [THEN conjunct1, rule_format, OF xi]
  have c: "remap_to_range PInf (Fin 0) (Fin 1) (Fin (- (3 / 2))) (Fin (3 / 2)) = Inr (Fin (3 / 2))"
    by auto
  have ok: "list_all mouse_x_ok ?ops" by simp
  have r: "mouse_dir_in_range ?s"
    by (simp add: mouse_dir_in_range_def example_session_def)
  from r ok have h: "mouse_dir_in_range ?s \<and> list_all mouse_x_ok ?ops" ..
  note d = inv [THEN conjunct2, THEN conjunct2, THEN conjunct1, THEN mp, OF ok]
  note e = inv [THEN conjunct2, THEN conjunct1, THEN mp, OF h]
  have on: "is_mouse_look_enabled ?s" by simp
  note n = inv [THEN conjunct2, THEN conjunct2, THEN conjunct2, THEN conjunct2, THEN conjunct1,
      THEN mp, OF on]
  have q: "mouse_dir (state_after (handle_mouse ?s (Fin (1 / 4)) (Fin (1 / 2)))) = Fin (- (3 / 4))"
    using mouse_dir_bounded [where s = ?s and mouse_x = "Fin (1 / 4)" and y = "Fin (1 / 2)",
        THEN conjunct2, THEN conjunct2, THEN conjunct2, THEN conjunct2, THEN conjunct2,
        THEN conjunct2, THEN conjunct1]
    by simp
  have lo: "Fin (- 4) < Fin 0" by simp
  have hi: "\<not> Fin 7 < Fin 0 \<and> Fin 1 < Fin 7" by simp
  have below: "remap_to_range (Fin (- 4)) (Fin 0) (Fin 1) (Fin 45) (Fin (- 25)) = Inr (Fin 45)"
    using mouse_dir_bounded [where v = "Fin (- 4)" and x_min = "Fin 0" and x_max = "Fin 1"
        and out_min = "Fin 45" and out_max = "Fin (- 25)",
        THEN conjunct2, THEN conjunct2, THEN conjunct2, THEN conjunct2, THEN conjunct2,
        THEN conjunct2, THEN conjunct2, THEN conjunct2, THEN conjunct1, THEN mp, OF lo] .
  have above: "remap_to_range (Fin 7) (Fin 0) (Fin 1) (Fin 45) (Fin (- 25)) = Inr (Fin (- 25))"
    using mouse_dir_bounded [where v = "Fin 7" and x_min = "Fin 0" and x_max = "Fin 1"
        and out_min = "Fin 45" and out_max = "Fin (- 25)",
        THEN conjunct2, THEN conjunct2, THEN conjunct2, THEN conjunct2, THEN conjunct2,
        THEN conjunct2, THEN conjunct2, THEN conjunct2, THEN conjunct2, THEN conjunct1,
        THEN mp, OF hi] .
  have f: "mouse_dir (run ?s [HandleMouse (Fin 7) (Fin (1 / 2))]) = Fin (3 / 2)"
    by (simp add: handle_mouse_mouse_dir)
  from a b c ok d r e f n q below above show ?thesis by blast
qed

lemma example_nan_mouse_dir:
  "mouse_dir (run (init example_robot) [SetMouseLookEnabled True, HandleMouse NaN (Fin (1 / 2))]) =
     NaN"
  by (simp add: state_after_def handle_mouse_mouse_dir [unfolded state_after_def]
      set_mouse_look_enabled_flag)

text \<open>Claim C10 as stated fails: on a new session with mouse look enabled, a mouse move
  with NaN as x leaves NaN in \<open>mouse_dir\<close>, which is not in [-1.5, 1.5].\<close>

theorem mouse_dir_bounded_counterexample:
  "mouse_dir (run (init example_robot) [SetMouseLookEnabled True, HandleMouse NaN (Fin (1 / 2))]) =
     NaN \<and>
   \<not> mouse_dir_in_range
       (run (init example_robot) [SetMouseLookEnabled True, HandleMouse NaN (Fin (1 / 2))])"
  unfolding mouse_dir_in_range_def example_nan_mouse_dir by simp

section \<open>The key bindings\<close>

lemma index_of_less: "index_of xs y = Some k \<Longrightarrow> k < length xs"
  by (induction xs arbitrary: k) (auto split: if_splits)

lemma index_of_None: "index_of xs y = None \<longleftrightarrow> y \<notin> set xs"
  by (induction xs) auto

lemma bind_defaults_length [simp]: "length (bind_defaults names ds kI idx) = length idx"
  by (induction ds arbitrary: kI idx) (simp_all add: Let_def)

lemma bind_defaults_nth:
  "kI + length ds \<le> length idx \<Longrightarrow> i < length idx \<Longrightarrow>
   bind_defaults names ds kI idx ! i =
     (if kI \<le> i \<and> i < kI + length ds
      then (case index_of names (ds ! (i - kI)) of Some k \<Rightarrow> int k | None \<Rightarrow> int i)
      else idx ! i)"
proof (induction ds arbitrary: kI idx)
  case Nil
  then show ?case by simp
next
  case (Cons d ds)
  let ?v = "case index_of names d of Some k \<Rightarrow> int k | None \<Rightarrow> int kI"
  have step: "bind_defaults names (d # ds) kI idx = bind_defaults names ds (kI + 1) (idx[kI := ?v])"
    by (simp add: Let_def)
  have ih: "bind_defaults names ds (kI + 1) (idx[kI := ?v]) ! i =
     (if kI + 1 \<le> i \<and> i < kI + 1 + length ds
      then (case index_of names (ds ! (i - (kI + 1))) of Some k \<Rightarrow> int k | None \<Rightarrow> int i)
      else idx[kI := ?v] ! i)"
    using Cons.prems by (intro Cons.IH) simp_all
  show ?case
  proof (cases "i = kI")
    case True
    then show ?thesis unfolding step ih using Cons.prems by (simp split: option.splits)
  next
    case False
    then show ?thesis unfolding step ih using Cons.prems
      by (auto simp: nth_Cons')
  qed
qed

lemma length_default_anims_for_keys: "length default_anims_for_keys = 10"
  by (simp add: default_anims_for_keys_def)

lemma init_anim_index_for_key:
  "anim_index_for_key (init rbt) =
     bind_defaults (anim_names (init rbt)) default_anims_for_keys 0 (replicate 10 0)"
  by (simp add: init_def Let_def)

lemma init_binding_length: "length (anim_index_for_key (init rbt)) = 10"
  by (simp add: init_anim_index_for_key)

lemma init_binding_nth:
  "i < 10 \<Longrightarrow>
   anim_index_for_key (init rbt) ! i =
     (case index_of (anim_names (init rbt)) (default_anims_for_keys ! i) of
        Some k \<Rightarrow> int k
      | None \<Rightarrow> int i)"
  by (simp add: init_anim_index_for_key bind_defaults_nth length_default_anims_for_keys)

lemma defaults_resolvable_iff:
  "defaults_resolvable names \<longleftrightarrow>
     (\<forall>i<10. default_anims_for_keys ! i \<in> set names \<or> i < length names)"
  by (simp add: defaults_resolvable_def default_resolvable_def list_all_length
      nth_enumerate_eq length_default_anims_for_keys)

lemma init_binding_valid_iff:
  assumes "i < 10"
  shows "valid_anim_index (anim_names (init rbt)) (anim_index_for_key (init rbt) ! i) \<longleftrightarrow>
         default_anims_for_keys ! i \<in> set (anim_names (init rbt)) \<or> i < length (anim_names (init rbt))"
proof (cases "index_of (anim_names (init rbt)) (default_anims_for_keys ! i)")
  case None
  then have "default_anims_for_keys ! i \<notin> set (anim_names (init rbt))"
    by (simp add: index_of_None)
  with None show ?thesis
    using assms by (simp add: init_binding_nth valid_anim_index_def)
next
  case (Some k)
  then have "default_anims_for_keys ! i \<in> set (anim_names (init rbt))"
    using index_of_None [of "anim_names (init rbt)" "default_anims_for_keys ! i"] by simp
  with Some show ?thesis
    using assms index_of_less [OF Some] by (simp add: init_binding_nth valid_anim_index_def)
qed

lemma init_bindings_valid_iff:
  "bindings_valid (init rbt) \<longleftrightarrow> defaults_resolvable (anim_names (init rbt))"
  by (simp add: bindings_valid_def defaults_resolvable_iff list_all_length init_binding_length
      init_binding_valid_iff)

lemma list_all_update:
  "list_all P xs \<Longrightarrow> P v \<Longrightarrow> list_all P (xs[n := v])"
  by (auto simp: list_all_iff dest: set_update_subset_insert [THEN subsetD])

lemma set_anim_bindings_valid:
  assumes "bindings_valid s" and "valid_anim_index (anim_names s) j"
  shows "bindings_valid (state_after (set_anim s k j))"
proof (cases "py_index (anim_index_for_key s) k")
  case None
  then show ?thesis using assms(1)
    by (simp add: set_anim_def py_set_def state_after_def)
next
  case (Some n)
  then show ?thesis using assms
    by (simp add: set_anim_def py_set_def state_after_def bindings_valid_def list_all_update)
qed

lemma apply_op_bindings_valid:
  assumes "bindings_valid s" and "anim_arg_ok (length (anim_names s)) c"
  shows "bindings_valid (state_after (apply_op s c))"
proof (cases c)
  case (SetAnim k j)
  then show ?thesis
    using assms by (simp add: set_anim_bindings_valid valid_anim_index_def)
next
  case (HandleKey k sh al dn)
  then show ?thesis
    using assms(1) handle_key_fields [of s k sh al dn] by (simp add: bindings_valid_def)
qed (use assms(1) in \<open>simp_all add: bindings_valid_def, simp_all add: state_after_def\<close>)

lemma run_bindings_valid:
  "bindings_valid s \<Longrightarrow> list_all (anim_arg_ok (length (anim_names s))) cs \<Longrightarrow>
   bindings_valid (run s cs)"
proof (induction cs arbitrary: s)
  case Nil
  then show ?case by simp
next
  case (Cons c cs)
  have v: "bindings_valid (state_after (apply_op s c))"
    using Cons.prems by (simp add: apply_op_bindings_valid)
  have r: "list_all (anim_arg_ok (length (anim_names (state_after (apply_op s c))))) cs"
    using Cons.prems by (simp add: apply_op_anim_names)
  show ?case
    unfolding run.simps by (rule Cons.IH [OF v r])
qed

lemma py_set_in_range:
  "0 \<le> i \<Longrightarrow> i < int (length xs) \<Longrightarrow> py_set xs i v = Inr (xs[nat i := v])"
  by (simp add: py_set_def py_index_def)

lemma set_anim_in_range:
  "0 \<le> slot \<Longrightarrow> slot < int (length (anim_index_for_key s)) \<Longrightarrow>
   set_anim s slot j = Inr (s\<lparr>anim_index_for_key := (anim_index_for_key s)[nat slot := j]\<rparr>)"
  by (simp add: set_anim_def py_set_in_range)

lemma set_anim_breaks_validity:
  assumes "bindings_valid s" and "0 \<le> slot" and "slot \<le> 9"
    and "\<not> valid_anim_index (anim_names s) j"
  shows "\<not> bindings_valid (state_after (set_anim s slot j))"
proof -
  have len: "length (anim_index_for_key s) = 10"
    using assms(1) by (simp add: bindings_valid_def)
  have pos: "nat slot < length (anim_index_for_key s)"
    using assms(2,3) len by simp
  have eq: "state_after (set_anim s slot j) =
            s\<lparr>anim_index_for_key := (anim_index_for_key s)[nat slot := j]\<rparr>"
    using assms(2,3) len by (simp add: set_anim_in_range state_after_def)
  have "(anim_index_for_key s)[nat slot := j] ! nat slot = j"
    using pos by simp
  then have "\<not> list_all (valid_anim_index (anim_names s)) ((anim_index_for_key s)[nat slot := j])"
    using assms(4) pos by (auto simp: list_all_length)
  then show ?thesis
    unfolding eq by (simp add: bindings_valid_def)
qed

text \<open>
  Claim C8, as amended. At creation the binding of digit key \<open>i\<close> is the catalog position
  of the key's default name when the catalog has it, and \<open>i\<close> itself otherwise; so the
  ten bindings of a new session are all indices into the catalog exactly when every
  default is in the catalog or its key's number is below the catalog's length. From a
  session with valid bindings, every sequence of operations whose \<open>set_anim\<close> calls pass
  an index into the catalog leaves the bindings valid. \<open>set_anim\<close> on an existing slot
  stores the index it is given, whatever it is, and changes nothing else; so on a
  session with valid bindings a \<open>set_anim\<close> call on a slot 0..9 with an index outside
  the catalog leaves the bindings invalid.
\<close>

theorem bindings_valid_invariant:
  "(bindings_valid (init rbt) \<longleftrightarrow> defaults_resolvable (anim_names (init rbt))) \<and>
   (\<forall>i<10. anim_index_for_key (init rbt) ! i =
      (case index_of (anim_names (init rbt)) (default_anims_for_keys ! i) of
         Some k \<Rightarrow> int k
       | None \<Rightarrow> int i)) \<and>
   (bindings_valid s \<and> list_all (anim_arg_ok (length (anim_names s))) ops \<longrightarrow>
      bindings_valid (run s ops)) \<and>
   (defaults_resolvable (anim_names (init rbt)) \<and>
    list_all (anim_arg_ok (length (anim_names (init rbt)))) ops \<longrightarrow>
      bindings_valid (run (init rbt) ops)) \<and>
   (0 \<le> slot \<and> slot < int (length (anim_index_for_key s)) \<longrightarrow>
      set_anim s slot j =
        Inr (s\<lparr>anim_index_for_key := (anim_index_for_key s)[nat slot := j]\<rparr>)) \<and>
   (bindings_valid s \<and> 0 \<le> slot \<and> slot \<le> 9 \<and> \<not> valid_anim_index (anim_names s) j \<longrightarrow>
      \<not> bindings_valid (state_after (set_anim s slot j)))"
  by (simp add: init_bindings_valid_iff init_binding_nth run_bindings_valid set_anim_in_range
      set_anim_breaks_validity)

lemma replicate_ten: "replicate 10 x = [x, x, x, x, x, x, x, x, x, x]"
  by (simp add: eval_nat_numeral)

lemma example_init_names:
  "anim_names (init example_robot) = [''anim_a'', ''anim_b'', ''anim_c'', ''anim_x'']"
  by (simp add: init_def Let_def example_robot_def bad_anim_names_def)

lemma example_init_bindings:
  "anim_index_for_key (init example_robot) = [0, 1, 2, 3, 4, 5, 6, 7, 8, 9]"
  by (simp add: init_def Let_def example_robot_def bad_anim_names_def
      default_anims_for_keys_def replicate_ten)

lemma ten_robot_names:
  "anim_names (init (example_robot\<lparr>anim_list :=
      [''b_anim'', ''anim_turn_left_01'', ''a_anim'', ''ANIMATION_TEST'',
       ''c'', ''d'', ''e'', ''f'', ''g'', ''h'', ''i'']\<rparr>)) =
   [''a_anim'', ''anim_turn_left_01'', ''b_anim'', ''c'', ''d'', ''e'', ''f'', ''g'', ''h'', ''i'']"
  by (simp add: init_def Let_def example_robot_def bad_anim_names_def)

text \<open>A robot whose catalog has ten entries, one of them the default of key 0; and two
  operations on the example session.\<close>

theorem bindings_valid_invariant_witness:
  "defaults_resolvable (anim_names (init (example_robot\<lparr>anim_list :=
      [''b_anim'', ''anim_turn_left_01'', ''a_anim'', ''ANIMATION_TEST'',
       ''c'', ''d'', ''e'', ''f'', ''g'', ''h'', ''i'']\<rparr>))) \<and>
   list_all (anim_arg_ok (length (anim_names (init (example_robot\<lparr>anim_list :=
      [''b_anim'', ''anim_turn_left_01'', ''a_anim'', ''ANIMATION_TEST'',
       ''c'', ''d'', ''e'', ''f'', ''g'', ''h'', ''i'']\<rparr>)))))
     [SetAnim 5 3, HandleKey 53 0 0 False, SetAnim 12 2, SetAnim (- 1) 9, Update] \<and>
   bindings_valid (run (init (example_robot\<lparr>anim_list :=
      [''b_anim'', ''anim_turn_left_01'', ''a_anim'', ''ANIMATION_TEST'',
       ''c'', ''d'', ''e'', ''f'', ''g'', ''h'', ''i'']\<rparr>))
     [SetAnim 5 3, HandleKey 53 0 0 False, SetAnim 12 2, SetAnim (- 1) 9, Update]) \<and>
   anim_index_for_key (init (example_robot\<lparr>anim_list :=
      [''b_anim'', ''anim_turn_left_01'', ''a_anim'', ''ANIMATION_TEST'',
       ''c'', ''d'', ''e'', ''f'', ''g'', ''h'', ''i'']\<rparr>)) ! 0 = 1 \<and>
   anim_index_for_key (init (example_robot\<lparr>anim_list :=
      [''b_anim'', ''anim_turn_left_01'', ''a_anim'', ''ANIMATION_TEST'',
       ''c'', ''d'', ''e'', ''f'', ''g'', ''h'', ''i'']\<rparr>)) ! 7 = 7 \<and>
   bindings_valid example_session \<and>
   list_all (anim_arg_ok (length (anim_names example_session))) [SetAnim 5 2, Update] \<and>
   bindings_valid (run example_session [SetAnim 5 2, Update]) \<and>
   set_anim example_session 4 9 =
     Inr (example_session\<lparr>anim_index_for_key := [0, 1, 2, 3, 9, 3, 1, 2, 3, 0]\<rparr>) \<and>
   set_anim example_session 9 (- 3) =
     Inr (example_session\<lparr>anim_index_for_key := [0, 1, 2, 3, 0, 3, 1, 2, 3, - 3]\<rparr>) \<and>
   \<not> valid_anim_index (anim_names example_session) 9 \<and>
   \<not> bindings_valid (state_after (set_anim example_session 4 9))"
proof -
  let ?r = "example_robot\<lparr>anim_list :=
      [''b_anim'', ''anim_turn_left_01'', ''a_anim'', ''ANIMATION_TEST'',
       ''c'', ''d'', ''e'', ''f'', ''g'', ''h'', ''i'']\<rparr>"
  let ?ops = "[SetAnim 5 3, HandleKey 53 0 0 False, SetAnim 12 2, SetAnim (- 1) 9, Update]"
  have d: "defaults_resolvable (anim_names (init ?r))"
    unfolding ten_robot_names
    by (simp add: defaults_resolvable_def default_resolvable_def default_anims_for_keys_def
        enumerate_simps)
  have o: "list_all (anim_arg_ok (length (anim_names (init ?r)))) ?ops"
    unfolding ten_robot_names by simp
  note inv = bindings_valid_invariant [of ?r _ ?ops]
  from d o have h: "defaults_resolvable (anim_names (init ?r)) \<and>
      list_all (anim_arg_ok (length (anim_names (init ?r)))) ?ops" ..
  have v: "bindings_valid (run (init ?r) ?ops)"
    using inv [THEN conjunct2, THEN conjunct2, THEN conjunct2, THEN conjunct1, THEN mp, OF h] .
  have n0: "anim_index_for_key (init ?r) ! 0 = 1"
    using inv [THEN conjunct2, THEN conjunct1, rule_format, of 0]
    unfolding ten_robot_names by (simp add: default_anims_for_keys_def)
  have n7: "anim_index_for_key (init ?r) ! 7 = 7"
    using inv [THEN conjunct2, THEN conjunct1, rule_format, of 7]
    unfolding ten_robot_names by (simp add: default_anims_for_keys_def)
  have b: "bindings_valid example_session"
    by (simp add: bindings_valid_def example_session_def valid_anim_index_def)
  have p: "list_all (anim_arg_ok (length (anim_names example_session))) [SetAnim 5 2, Update]"
    by (simp add: example_session_def)
  from b p have g: "bindings_valid example_session \<and>
      list_all (anim_arg_ok (length (anim_names example_session))) [SetAnim 5 2, Update]" ..
  have w: "bindings_valid (run example_session [SetAnim 5 2, Update])"
    using bindings_valid_invariant [of _ example_session "[SetAnim 5 2, Update]",
        THEN conjunct2, THEN conjunct2, THEN conjunct1, THEN mp, OF g] .
  have s4: "0 \<le> (4::int) \<and> 4 < int (length (anim_index_for_key example_session))"
    and s9: "0 \<le> (9::int) \<and> 9 < int (length (anim_index_for_key example_session))"
    by (simp_all add: example_session_def)
  have st4: "set_anim example_session 4 9 =
     Inr (example_session\<lparr>anim_index_for_key := [0, 1, 2, 3, 9, 3, 1, 2, 3, 0]\<rparr>)"
    using bindings_valid_invariant [of _ example_session _ 4 9,
        THEN conjunct2, THEN conjunct2, THEN conjunct2, THEN conjunct2, THEN conjunct1,
        THEN mp, OF s4]
    by (simp add: example_session_def)
  have st9: "set_anim example_session 9 (- 3) =
     Inr (example_session\<lparr>anim_index_for_key := [0, 1, 2, 3, 0, 3, 1, 2, 3, - 3]\<rparr>)"
    using bindings_valid_invariant [of _ example_session _ 9 "- 3",
        THEN conjunct2, THEN conjunct2, THEN conjunct2, THEN conjunct2, THEN conjunct1,
        THEN mp, OF s9]
    by (simp add: example_session_def)
  have nv: "\<not> valid_anim_index (anim_names example_session) 9"
    by (simp add: valid_anim_index_def example_session_def)
  from b nv have g4: "bindings_valid example_session \<and> 0 \<le> (4::int) \<and> (4::int) \<le> 9 \<and>
      \<not> valid_anim_index (anim_names example_session) 9"
    by simp
  have br: "\<not> bindings_valid (state_after (set_anim example_session 4 9))"
    using bindings_valid_invariant [of _ example_session _ 4 9,
        THEN conjunct2, THEN conjunct2, THEN conjunct2, THEN conjunct2, THEN conjunct2,
        THEN mp, OF g4] .
  from d o v n0 n7 b p w st4 st9 nv br show ?thesis by blast
qed

lemma example_init_release_raises:
  "raised (handle_key (init example_robot) 53 0 0 False) = Some IndexError"
proof -
  obtain s7 where b: "same_bindings (init example_robot) s7"
    and hk: "handle_key (init example_robot) 53 0 0 False =
       (if \<not> False then
          (if py_ord CHR ''9'' \<ge> 53 \<and> 53 \<ge> py_ord CHR ''0'' then
             (case key_code_to_anim_name s7 53 of
                Inl e \<Rightarrow> Inl (e, s7)
              | Inr anim_name \<Rightarrow> Inr (queue_action s7 (play_animation, anim_name)))
           else if 53 = py_ord CHR '' '' then Inr (queue_action s7 (say_text, text_to_say s7))
           else Inr s7)
        else Inr s7)"
    using handle_key_shape [of "init example_robot" 53 0 0 False] by blast
  have "key_code_to_anim_name s7 53 = Inl IndexError"
    using b
    by (simp add: same_bindings_def key_code_to_anim_name_def example_init_names
        example_init_bindings py_get_def py_index_def py_ord_def)
  then show ?thesis
    unfolding hk by (simp add: py_ord_def raised_def)
qed

text \<open>Claim C8 as stated fails: on a catalog of four entries without the defaults, a
  new session binds keys 4 to 9 to their own numbers, which are out of range, and the
  release of key 5 then raises \<open>IndexError\<close>; and \<open>set_anim\<close> stores the out-of-range
  index 7 as it is given.\<close>

theorem bindings_valid_counterexample:
  "anim_names (init example_robot) = [''anim_a'', ''anim_b'', ''anim_c'', ''anim_x''] \<and>
   anim_index_for_key (init example_robot) = [0, 1, 2, 3, 4, 5, 6, 7, 8, 9] \<and>
   \<not> bindings_valid (init example_robot) \<and>
   raised (handle_key (init example_robot) 53 0 0 False) = Some IndexError \<and>
   bindings_valid example_session \<and>
   \<not> bindings_valid (state_after (set_anim example_session 0 7))"
proof -
  have a: "\<not> bindings_valid (init example_robot)"
    by (simp add: bindings_valid_def example_init_names example_init_bindings valid_anim_index_def)
  have b: "bindings_valid example_session"
    by (simp add: bindings_valid_def example_session_def valid_anim_index_def)
  have c: "\<not> bindings_valid (state_after (set_anim example_session 0 7))"
    by (simp add: bindings_valid_def example_session_def valid_anim_index_def set_anim_def
        py_set_def py_index_def state_after_def)
  from example_init_names example_init_bindings a example_init_release_raises b c
  show ?thesis by blast
qed

end
